theory Spec2Isabelle
  imports Main "HOL-Library.Option_ord" "HOL-Library.Product_Lexorder" "HOL-Library.Multiset"
begin

section \<open>Data model (database/models.py)\<close>

text \<open>
  The tables of \<^verbatim>\<open>database/models.py\<close> that the ledger handlers of
  \<^verbatim>\<open>backend/api.py\<close> read or write. A table is the list of its rows in insertion
  order; a nullable column is an \<open>option\<close>. Primary keys are AUTO\_INCREMENT counters kept
  in the database state. \<open>Numeric(14, 2)\<close> amounts are integers counting hundredths
  (minor units); \<open>DateTime\<close> values are natural numbers (seconds). Python integers are
  unbounded, and so are the integers here: the widths of the storage columns are not part
  of the model.
\<close>

type_synonym money = int
type_synonym timestamp = nat

datatype AccountStatus = APPROVAL_PENDING | ACTIVE | FROZEN

datatype TxType = DEPOSIT | TRANSFER | LOAN_DISBURSAL | EMI_PAYMENT

datatype TxStatus = TX_PENDING | POSTED | FAILED

datatype RequestStatus = PENDING | APPROVED | REJECTED

definition GL_CASH_VAULT :: string where
  "GL_CASH_VAULT = ''CASH_VAULT''"

definition GL_BANK_LOAN :: string where
  "GL_BANK_LOAN = ''BANK_LOAN_GL''"

record Role =
  role_id :: nat
  role_name :: string

record UserRole =
  ur_id :: nat
  ur_user_id :: nat
  ur_role_id :: nat

record Customer =
  cust_id :: nat
  cust_user_id :: nat

record Branch =
  br_id :: nat
  br_code :: string

record AccountNumberSeq =
  seq_id :: nat
  seq_branch_id :: nat
  next_serial :: nat

record AccountRequest =
  ar_id :: nat
  ar_customer_id :: nat
  ar_branch_id :: nat
  ar_product :: string
  ar_status :: RequestStatus

record Account =
  acc_id :: nat
  acc_customer_id :: nat
  acc_branch_id :: nat
  account_no :: string
  acc_product :: string
  acc_status :: AccountStatus

record InternetBanking =
  ib_id :: nat
  ib_account_id :: nat
  pin_hash :: string

record Transaction =
  tx_id :: nat
  tx_type :: TxType
  tx_status :: TxStatus
  tx_created_by :: "nat option"
  tx_created_at :: "timestamp option"

record LedgerEntry =
  le_id :: nat
  le_transaction_id :: nat
  le_account_id :: "nat option"
  gl_code :: "string option"
  dr_cr :: string
  amount :: money
  posted_at :: "timestamp option"

record LoanApplication =
  la_id :: nat
  la_customer_id :: nat
  la_amount :: money
  la_status :: RequestStatus

record LoanApplicationDetail =
  lad_id :: nat
  lad_application_id :: nat
  lad_tenure_months :: int
  lad_rate_pa :: "int option"
  lad_stage :: string

record LoanAppHistory =
  lah_id :: nat
  lah_application_id :: nat
  lah_from_stage :: string
  lah_to_stage :: string
  lah_remarks :: string
  lah_actor_user_id :: nat

record db =
  roles :: "Role list"
  user_roles :: "UserRole list"
  customers :: "Customer list"
  branches :: "Branch list"
  account_number_seq :: "AccountNumberSeq list"
  account_requests :: "AccountRequest list"
  accounts :: "Account list"
  internet_banking :: "InternetBanking list"
  transactions :: "Transaction list"
  ledger_entries :: "LedgerEntry list"
  loan_applications :: "LoanApplication list"
  loan_application_details :: "LoanApplicationDetail list"
  loan_app_history :: "LoanAppHistory list"
  next_seq_id :: nat
  next_acc_id :: nat
  next_tx_id :: nat
  next_le_id :: nat
  next_lah_id :: nat

section \<open>Numbers and texts of Python\<close>

subsection \<open>float\<close>

text \<open>
  Every amount and balance of a response is written as \<^verbatim>\<open>float(d)\<close> of a \<^verbatim>\<open>Decimal\<close>
  \<open>d\<close>: the IEEE 754 binary64 number nearest to \<open>d\<close>, ties going to the even
  significand. \<open>Binary64 m e\<close> is the number \<open>m * 2 ^ e\<close>, with \<open>2 ^ 52 \<le> \<bar>m\<bar> < 2 ^ 53\<close>
  unless it is zero; a decimal too large for binary64 becomes an infinity. The decimals
  here are hundredths of at least 0.01 in magnitude, far above the subnormal range.
\<close>

datatype pyfloat = Binary64 int int | PlusInf | MinusInf

text \<open>\<^verbatim>\<open>int.bit_length\<close>: the number of binary digits of a natural number.\<close>

fun bit_length :: "nat \<Rightarrow> nat" where
  "bit_length n = (if n = 0 then 0 else Suc (bit_length (n div 2)))"

declare bit_length.simps [simp del]

text \<open>The quotient \<open>p / d\<close> rounded to the nearest natural number, ties to the even one.\<close>

definition round_half_even :: "nat \<Rightarrow> nat \<Rightarrow> nat" where
  "round_half_even p d =
     (let q = p div d; r = p mod d
      in if 2 * r < d then q else if d < 2 * r then q + 1 else if even q then q else q + 1)"

text \<open>
  \<open>a\<close> hundredths divided by \<open>2 ^ e\<close>, as numerator and denominator; and the exponent \<open>e\<close>
  that brings \<open>a\<close> hundredths into the range of a 53-bit significand:
  \<open>2 ^ 52 \<le> a / 100 / 2 ^ e < 2 ^ 53\<close>.
\<close>

definition scaled :: "nat \<Rightarrow> int \<Rightarrow> nat \<times> nat" where
  "scaled a e = (if 0 \<le> e then (a, 100 * 2 ^ nat e) else (a * 2 ^ nat (- e), 100))"

definition binary_exponent :: "nat \<Rightarrow> int" where
  "binary_exponent a =
     (let e1 = int (bit_length a) - 59
      in if 2 ^ 52 * snd (scaled a e1) \<le> fst (scaled a e1) then e1 else e1 - 1)"

definition make_float :: "money \<Rightarrow> nat \<Rightarrow> int \<Rightarrow> pyfloat" where
  "make_float n m e =
     (if 971 < e then (if n < 0 then MinusInf else PlusInf)
      else Binary64 (sgn n * int m) e)"

definition float_of_decimal :: "money \<Rightarrow> pyfloat" where
  "float_of_decimal n =
     (if n = 0 then Binary64 0 0
      else
        (let a = nat \<bar>n\<bar>;
             e = binary_exponent a;
             m = round_half_even (fst (scaled a e)) (snd (scaled a e))
         in if m = 2 ^ 53 then make_float n (2 ^ 52) (e + 1) else make_float n m e))"

text \<open>
  What a float is worth in hundredths when it is rounded to two decimals: the multiple
  of 0.01 nearest to it.
\<close>

fun nearest_cent :: "pyfloat \<Rightarrow> money option" where
  "nearest_cent (Binary64 m e) =
     Some (if 0 \<le> e then 100 * m * 2 ^ nat e
           else sgn m * int (round_half_even (100 * nat \<bar>m\<bar>) (2 ^ nat (- e))))"
| "nearest_cent _ = None"

subsection \<open>Decimal\<close>

text \<open>
  A value that \<^verbatim>\<open>Decimal(str(...))\<close> accepts: a finite decimal (in hundredths), an
  infinity or a NaN. An order comparison with a NaN raises \<^verbatim>\<open>InvalidOperation\<close>, which
  is \<open>None\<close> here. \<open>decimal_le_zero d\<close> is \<^verbatim>\<open>d <= 0\<close> and \<open>decimal_less b d\<close> is
  \<^verbatim>\<open>b < d\<close> for a finite \<open>b\<close>.
\<close>

datatype decimal = DecNaN | DecMinusInfinity | DecFinite money | DecInfinity

fun decimal_le_zero :: "decimal \<Rightarrow> bool option" where
  "decimal_le_zero DecNaN = None"
| "decimal_le_zero DecMinusInfinity = Some True"
| "decimal_le_zero (DecFinite a) = Some (a \<le> 0)"
| "decimal_le_zero DecInfinity = Some False"

fun decimal_less :: "money \<Rightarrow> decimal \<Rightarrow> bool option" where
  "decimal_less b DecNaN = None"
| "decimal_less b DecMinusInfinity = Some False"
| "decimal_less b (DecFinite a) = Some (b < a)"
| "decimal_less b DecInfinity = Some True"

subsection \<open>str and the libraries\<close>

text \<open>
  The PIN of a request is a Python \<^verbatim>\<open>str\<close>, a list of Unicode code points. Two things
  the handlers call are library code: \<^verbatim>\<open>bcrypt.verify\<close> of passlib, and the table of
  characters that \<^verbatim>\<open>str.isdigit\<close> accepts. They are parameters of the model:
  \<open>bcrypt_verify pin hash\<close>, and \<open>isdigit_beyond_ascii c\<close> for the code points above 127
  that count as digits. The ASCII digits are the code points 48 to 57.
\<close>

type_synonym pystr = "nat list"

record runtime =
  bcrypt_verify :: "pystr \<Rightarrow> string \<Rightarrow> bool"
  isdigit_beyond_ascii :: "nat \<Rightarrow> bool"

definition isdigit :: "runtime \<Rightarrow> pystr \<Rightarrow> bool" where
  "isdigit rt p =
     (p \<noteq> [] \<and>
      list_all (\<lambda>c. (48 \<le> c \<and> c \<le> 57) \<or> (127 < c \<and> isdigit_beyond_ascii rt c)) p)"

section \<open>Helpers of backend/api.py\<close>

text \<open>
  Every handler runs behind \<^verbatim>\<open>@login_required\<close>: the caller is an authenticated user,
  given by its user id \<open>uid\<close> (\<^verbatim>\<open>current_user.id\<close>). A handler takes the database and
  returns the database after the request together with its response: \<open>Inl\<close> an error
  response, \<open>Inr\<close> the success payload. An exception that no handler catches ends the
  request with status 500 and nothing written: \<open>InternalServerError\<close>.
\<close>

datatype error =
    RoleRequired
  | Forbidden
  | NoAccountFound
  | AccountNotFound
  | InvalidSourceOrDestination
  | SameAccount
  | BothMustBeActive
  | NotAllowedForSource
  | InvalidAmount
  | AmountMustBePositive
  | PinMustBe4Or6Digits
  | InvalidPinOrIBNotActivated
  | InsufficientFunds pyfloat
  | AccountNotActive
  | AccountNoRequired
  | InvalidInitialDeposit
  | InitialDepositNegative
  | RequestNotFound
  | RequestAlready RequestStatus
  | BranchNotFound
  | InvalidRate
  | InvalidTerm
  | LoanApplicationNotFound
  | LoanNotApproved
  | InvalidDisburseAmount
  | DisburseAmountMustBePositive
  | InvalidBeforeCursor
  | InternalServerError

definition get_customer :: "db \<Rightarrow> nat \<Rightarrow> Customer option" where
  "get_customer s uid = find (\<lambda>c. cust_user_id c = uid) (customers s)"

definition get_account :: "db \<Rightarrow> nat \<Rightarrow> Account option" where
  "get_account s i = find (\<lambda>a. acc_id a = i) (accounts s)"

definition account_by_no :: "db \<Rightarrow> string \<Rightarrow> Account option" where
  "account_by_no s n = find (\<lambda>a. account_no a = n) (accounts s)"

text \<open>
  \<^verbatim>\<open>_first_account_for_user\<close>: the caller's accounts, optionally the ACTIVE ones only.
  The source orders them by creation time and takes the first; the handlers modelled
  here only test the result for \<^verbatim>\<open>None\<close>, so the first row in table order stands for it.
\<close>

definition first_account_for_user :: "db \<Rightarrow> nat \<Rightarrow> bool \<Rightarrow> Account option" where
  "first_account_for_user s uid active_only =
     (case get_customer s uid of
        None \<Rightarrow> None
      | Some cust \<Rightarrow>
          find (\<lambda>a. acc_customer_id a = cust_id cust \<and> (active_only \<longrightarrow> acc_status a = ACTIVE))
            (accounts s))"

definition require_any_account :: "db \<Rightarrow> nat \<Rightarrow> bool \<Rightarrow> error + Account" where
  "require_any_account s uid active_only =
     (case first_account_for_user s uid active_only of
        None \<Rightarrow> Inl NoAccountFound
      | Some acc \<Rightarrow> Inr acc)"

definition has_role :: "db \<Rightarrow> nat \<Rightarrow> string \<Rightarrow> bool" where
  "has_role s uid name =
     (case find (\<lambda>r. role_name r = name) (roles s) of
        None \<Rightarrow> False
      | Some role \<Rightarrow>
          find (\<lambda>l. ur_user_id l = uid \<and> ur_role_id l = role_id role) (user_roles s) \<noteq> None)"

subsection \<open>Balance\<close>

text \<open>
  The aggregate every handler uses for a balance:
  \<^verbatim>\<open>coalesce(sum(LedgerEntry.amount), 0)\<close> filtered by account id and by \<^verbatim>\<open>dr_cr\<close>.
  The sum of no rows is NULL, which \<open>coalesce\<close> turns into 0, as \<open>sum_list []\<close> is.
\<close>

definition sum_amount :: "db \<Rightarrow> nat \<Rightarrow> string \<Rightarrow> money" where
  "sum_amount s account_id side =
     sum_list (map amount
       (filter (\<lambda>e. le_account_id e = Some account_id \<and> dr_cr e = side) (ledger_entries s)))"

definition balance_of :: "db \<Rightarrow> nat \<Rightarrow> money" where
  "balance_of s account_id = sum_amount s account_id ''CR'' - sum_amount s account_id ''DR''"

text \<open>
  \<^verbatim>\<open>GET /accounts/<id>/balance\<close>: \<^verbatim>\<open>balance=float(Decimal(cr) - Decimal(dr))\<close>.
\<close>

definition account_balance :: "db \<Rightarrow> nat \<Rightarrow> nat \<Rightarrow> db \<times> (error + pyfloat)" where
  "account_balance s uid account_id =
     (let cust = get_customer s uid; acc = get_account s account_id in
      if acc = None \<or> cust = None \<or> acc_customer_id (the acc) \<noteq> cust_id (the cust)
      then (s, Inl AccountNotFound)
      else
        (let cr = sum_amount s account_id ''CR'';
             dr = sum_amount s account_id ''DR''
         in (s, Inr (float_of_decimal (cr - dr)))))"

text \<open>
  The balance as the specification defines it, recomputed from the raw entries one at a
  time: a CREDIT entry of the account adds its amount, a DEBIT entry of the account
  subtracts it, every other entry leaves the running total alone.
\<close>

fun signed_amount :: "nat \<Rightarrow> LedgerEntry \<Rightarrow> money" where
  "signed_amount account_id e =
     (if le_account_id e \<noteq> Some account_id then 0
      else if dr_cr e = ''CR'' then amount e
      else if dr_cr e = ''DR'' then - amount e
      else 0)"

primrec spec_balance :: "nat \<Rightarrow> LedgerEntry list \<Rightarrow> money" where
  "spec_balance account_id [] = 0"
| "spec_balance account_id (e # es) = signed_amount account_id e + spec_balance account_id es"

section \<open>Posting primitives\<close>

text \<open>
  \<^verbatim>\<open>db.session.add(Transaction(type=..., status=POSTED, created_by=current_user.id))\<close>
  followed by \<^verbatim>\<open>flush()\<close>: the row receives the next id, which the handler reads back,
  and the server's current time \<open>now\<close> as \<open>created_at\<close>.
\<close>

definition add_transaction :: "db \<Rightarrow> TxType \<Rightarrow> nat \<Rightarrow> timestamp \<Rightarrow> db \<times> nat" where
  "add_transaction s ty uid now =
     (s\<lparr>transactions := transactions s @
           [\<lparr>tx_id = next_tx_id s, tx_type = ty, tx_status = POSTED, tx_created_by = Some uid,
             tx_created_at = Some now\<rparr>],
        next_tx_id := Suc (next_tx_id s)\<rparr>,
      next_tx_id s)"

text \<open>
  \<^verbatim>\<open>db.session.add(LedgerEntry(transaction_id=..., account_id=... / gl_code=..., dr_cr=...,
  amount=...))\<close>: the column not given stays NULL, \<open>posted_at\<close> is the server's current time.
\<close>

definition add_ledger_entry ::
  "db \<Rightarrow> nat \<Rightarrow> nat option \<Rightarrow> string option \<Rightarrow> string \<Rightarrow> money \<Rightarrow> timestamp \<Rightarrow> db" where
  "add_ledger_entry s txid acc gl side amt now =
     s\<lparr>ledger_entries := ledger_entries s @
          [\<lparr>le_id = next_le_id s, le_transaction_id = txid, le_account_id = acc, gl_code = gl,
            dr_cr = side, amount = amt, posted_at = Some now\<rparr>],
       next_le_id := Suc (next_le_id s)\<rparr>"

section \<open>Send money (ib\_transfer)\<close>

text \<open>
  The request body after \<^verbatim>\<open>_json()\<close>. An account is named by its number (a non-empty
  \<^verbatim>\<open>*_account_no\<close>, stripped), else by its id (a \<^verbatim>\<open>*_account_id\<close> that \<open>int\<close> accepts),
  else not at all. \<open>tr_amount\<close> is \<open>None\<close> when \<^verbatim>\<open>Decimal(str(...))\<close> raises, else the
  decimal read; \<open>tr_pin\<close> is the stripped PIN text.
\<close>

datatype acct_ref = ByNo string | ById nat | NoRef

record transfer_request =
  tr_from :: acct_ref
  tr_to :: acct_ref
  tr_amount :: "decimal option"
  tr_pin :: pystr

record transfer_ok =
  tf_transaction_id :: nat
  tf_from_account_id :: nat
  tf_from_account_no :: string
  tf_to_account_id :: nat
  tf_to_account_no :: string
  tf_amount :: pyfloat
  tf_new_balance :: pyfloat

fun lookup_ref :: "db \<Rightarrow> acct_ref \<Rightarrow> Account option" where
  "lookup_ref s (ByNo n) = account_by_no s n"
| "lookup_ref s (ById i) = get_account s i"
| "lookup_ref s NoRef = None"

definition pin_well_formed :: "runtime \<Rightarrow> pystr \<Rightarrow> bool" where
  "pin_well_formed rt p = (isdigit rt p \<and> (length p = 4 \<or> length p = 6))"

definition get_ib :: "db \<Rightarrow> nat \<Rightarrow> InternetBanking option" where
  "get_ib s account_id = find (\<lambda>i. ib_account_id i = account_id) (internet_banking s)"

text \<open>
  \<^verbatim>\<open>POST /ib/transfer\<close> in its two parts. \<open>transfer_checks\<close> is the handler up to and
  including the funds check (api.py, lines 746 to 787): it only reads the database, and
  it answers with the first error or with the two accounts and the amount to post. The
  checks and their early returns are in the order of the source. Behind the funds check
  the amount is a finite decimal.
\<close>

definition transfer_checks ::
  "runtime \<Rightarrow> db \<Rightarrow> nat \<Rightarrow> transfer_request \<Rightarrow> error + (Account \<times> Account \<times> money)" where
  "transfer_checks rt s uid rq =
     (case require_any_account s uid False of
        Inl err0 \<Rightarrow> Inl err0
      | Inr _ \<Rightarrow>
     (case (lookup_ref s (tr_from rq), lookup_ref s (tr_to rq)) of
        (None, _) \<Rightarrow> Inl InvalidSourceOrDestination
      | (Some from_acc, None) \<Rightarrow> Inl InvalidSourceOrDestination
      | (Some from_acc, Some to_acc) \<Rightarrow>
     if acc_id from_acc = acc_id to_acc then Inl SameAccount
     else if acc_status from_acc \<noteq> ACTIVE \<or> acc_status to_acc \<noteq> ACTIVE
       then Inl BothMustBeActive
     else if (case get_customer s uid of
                None \<Rightarrow> True
              | Some cust \<Rightarrow> acc_customer_id from_acc \<noteq> cust_id cust)
       then Inl NotAllowedForSource
     else
     (case tr_amount rq of
        None \<Rightarrow> Inl InvalidAmount
      | Some amt \<Rightarrow>
     (case decimal_le_zero amt of
        None \<Rightarrow> Inl InternalServerError
      | Some True \<Rightarrow> Inl AmountMustBePositive
      | Some False \<Rightarrow>
     if \<not> pin_well_formed rt (tr_pin rq) then Inl PinMustBe4Or6Digits
     else if (case get_ib s (acc_id from_acc) of
                None \<Rightarrow> True
              | Some ib \<Rightarrow> \<not> bcrypt_verify rt (tr_pin rq) (pin_hash ib))
       then Inl InvalidPinOrIBNotActivated
     else
       (let cr = sum_amount s (acc_id from_acc) ''CR'';
            dr = sum_amount s (acc_id from_acc) ''DR'';
            bal = cr - dr
        in
        (case decimal_less bal amt of
           None \<Rightarrow> Inl InternalServerError
         | Some True \<Rightarrow> Inl (InsufficientFunds (float_of_decimal bal))
         | Some False \<Rightarrow>
             (case amt of
                DecFinite a \<Rightarrow> Inr (from_acc, to_acc, a)
              | _ \<Rightarrow> Inl InternalServerError)))))))"

text \<open>
  \<open>transfer_post\<close> is the rest of the handler (lines 788 to 801): the transaction, its
  two entries, the commit, and the response with the balance read again.
\<close>

definition transfer_post ::
  "db \<Rightarrow> nat \<Rightarrow> Account \<Rightarrow> Account \<Rightarrow> money \<Rightarrow> timestamp \<Rightarrow> db \<times> transfer_ok" where
  "transfer_post s uid from_acc to_acc amt now =
     (let (s1, txid) = add_transaction s TRANSFER uid now;
          s2 = add_ledger_entry s1 txid (Some (acc_id from_acc)) None ''DR'' amt now;
          s3 = add_ledger_entry s2 txid (Some (acc_id to_acc)) None ''CR'' amt now;
          cr2 = sum_amount s3 (acc_id from_acc) ''CR'';
          dr2 = sum_amount s3 (acc_id from_acc) ''DR'';
          new_bal = cr2 - dr2
      in (s3, \<lparr>tf_transaction_id = txid,
                tf_from_account_id = acc_id from_acc,
                tf_from_account_no = account_no from_acc,
                tf_to_account_id = acc_id to_acc,
                tf_to_account_no = account_no to_acc,
                tf_amount = float_of_decimal amt,
                tf_new_balance = float_of_decimal new_bal\<rparr>))"

definition ib_transfer ::
  "runtime \<Rightarrow> db \<Rightarrow> nat \<Rightarrow> transfer_request \<Rightarrow> timestamp \<Rightarrow> db \<times> (error + transfer_ok)" where
  "ib_transfer rt s uid rq now =
     (case transfer_checks rt s uid rq of
        Inl err \<Rightarrow> (s, Inl err)
      | Inr (from_acc, to_acc, amt) \<Rightarrow>
          (let (s', ok) = transfer_post s uid from_acc to_acc amt now in (s', Inr ok)))"

text \<open>
  The source takes no lock, opens no serialisable transaction and does not look at the
  balance again when it commits. Two requests that are handled at the same time can
  therefore both run their checks on the database as it is before either has committed,
  and then both post. \<open>racing_transfers\<close> is that schedule: the checks of both requests
  read \<open>s\<close>, the posts follow one another.
\<close>

definition racing_transfers ::
  "runtime \<Rightarrow> db \<Rightarrow> nat \<Rightarrow> transfer_request \<Rightarrow> timestamp \<Rightarrow> nat \<Rightarrow> transfer_request \<Rightarrow> timestamp
     \<Rightarrow> db \<times> (error + transfer_ok) \<times> (error + transfer_ok)" where
  "racing_transfers rt s uid1 rq1 now1 uid2 rq2 now2 =
     (let checked1 = transfer_checks rt s uid1 rq1;
          checked2 = transfer_checks rt s uid2 rq2;
          (s1, r1) = (case checked1 of
                        Inl err \<Rightarrow> (s, Inl err)
                      | Inr (from_acc, to_acc, amt) \<Rightarrow>
                          (let (s', ok) = transfer_post s uid1 from_acc to_acc amt now1
                           in (s', Inr ok)));
          (s2, r2) = (case checked2 of
                        Inl err \<Rightarrow> (s1, Inl err)
                      | Inr (from_acc, to_acc, amt) \<Rightarrow>
                          (let (s', ok) = transfer_post s1 uid2 from_acc to_acc amt now2
                           in (s', Inr ok)))
      in (s2, r1, r2))"

subsection \<open>The order of checks as the specification lists it\<close>

text \<open>
  The specification names seven checks of a transfer and fixes their precedence:
  existence, distinctness, status, ownership, amount validity, PIN, funds. Each check is
  stated here on its own, as a property of the request and the database; the check the
  specification expects to be reported is the first one in that order that does not hold.
\<close>

datatype transfer_check =
  Existence | Distinctness | Status | Ownership | AmountValidity | PinCredential | Funds

fun check_holds ::
  "runtime \<Rightarrow> db \<Rightarrow> nat \<Rightarrow> transfer_request \<Rightarrow> transfer_check \<Rightarrow> bool" where
  "check_holds rt s uid rq Existence =
     (lookup_ref s (tr_from rq) \<noteq> None \<and> lookup_ref s (tr_to rq) \<noteq> None)"
| "check_holds rt s uid rq Distinctness =
     (map_option acc_id (lookup_ref s (tr_from rq)) \<noteq> map_option acc_id (lookup_ref s (tr_to rq)))"
| "check_holds rt s uid rq Status =
     (map_option acc_status (lookup_ref s (tr_from rq)) = Some ACTIVE \<and>
      map_option acc_status (lookup_ref s (tr_to rq)) = Some ACTIVE)"
| "check_holds rt s uid rq Ownership =
     (get_customer s uid \<noteq> None \<and>
      map_option acc_customer_id (lookup_ref s (tr_from rq)) =
        map_option cust_id (get_customer s uid))"
| "check_holds rt s uid rq AmountValidity =
     (case tr_amount rq of
        Some (DecFinite a) \<Rightarrow> 0 < a
      | Some DecInfinity \<Rightarrow> True
      | _ \<Rightarrow> False)"
| "check_holds rt s uid rq PinCredential =
     (case lookup_ref s (tr_from rq) of
        None \<Rightarrow> False
      | Some from_acc \<Rightarrow>
          pin_well_formed rt (tr_pin rq) \<and>
          (case get_ib s (acc_id from_acc) of
             None \<Rightarrow> False
           | Some ib \<Rightarrow> bcrypt_verify rt (tr_pin rq) (pin_hash ib)))"
| "check_holds rt s uid rq Funds =
     (case (lookup_ref s (tr_from rq), tr_amount rq) of
        (Some from_acc, Some (DecFinite a)) \<Rightarrow>
          a \<le> spec_balance (acc_id from_acc) (ledger_entries s)
      | _ \<Rightarrow> False)"

definition check_order :: "transfer_check list" where
  "check_order = [Existence, Distinctness, Status, Ownership, AmountValidity, PinCredential, Funds]"

definition first_violated ::
  "runtime \<Rightarrow> db \<Rightarrow> nat \<Rightarrow> transfer_request \<Rightarrow> transfer_check option" where
  "first_violated rt s uid rq = find (\<lambda>c. \<not> check_holds rt s uid rq c) check_order"

text \<open>The check that an error response of \<open>ib_transfer\<close> reports.\<close>

fun check_of_error :: "error \<Rightarrow> transfer_check option" where
  "check_of_error InvalidSourceOrDestination = Some Existence"
| "check_of_error SameAccount = Some Distinctness"
| "check_of_error BothMustBeActive = Some Status"
| "check_of_error NotAllowedForSource = Some Ownership"
| "check_of_error InvalidAmount = Some AmountValidity"
| "check_of_error AmountMustBePositive = Some AmountValidity"
| "check_of_error PinMustBe4Or6Digits = Some PinCredential"
| "check_of_error InvalidPinOrIBNotActivated = Some PinCredential"
| "check_of_error (InsufficientFunds bal) = Some Funds"
| "check_of_error _ = None"

section \<open>Approve an account request (ops\_approve\_request)\<close>

text \<open>Python's \<^verbatim>\<open>str\<close> of a non-negative integer: its decimal digits.\<close>

fun string_of_nat :: "nat \<Rightarrow> string" where
  "string_of_nat n =
     (if n < 10 then [''0123456789'' ! n]
      else string_of_nat (n div 10) @ [''0123456789'' ! (n mod 10)])"

declare string_of_nat.simps [simp del]

text \<open>
  The \<^verbatim>\<open>initial_deposit\<close> field of the request body: \<open>InitDefault\<close> when it is absent or
  one of \<^verbatim>\<open>None, "", 0, "0"\<close>; \<open>InitInvalid\<close> when \<^verbatim>\<open>Decimal(str(...))\<close> raises; else the
  decimal read.
\<close>

datatype init_raw = InitDefault | InitInvalid | InitAmount money

record approve_ok =
  ap_account_id :: nat
  ap_account_no :: string
  ap_request_status :: RequestStatus
  ap_initial_deposit :: pyfloat

definition parse_initial_deposit :: "init_raw \<Rightarrow> error + money" where
  "parse_initial_deposit init =
     (case init of
        InitDefault \<Rightarrow> Inr 0
      | InitInvalid \<Rightarrow> Inl InvalidInitialDeposit
      | InitAmount init_amt \<Rightarrow> if init_amt < 0 then Inl InitialDepositNegative else Inr init_amt)"

text \<open>The deposit that a request asks for: nothing when the field is not given.\<close>

definition requested_deposit :: "init_raw \<Rightarrow> money" where
  "requested_deposit init = (case init of InitAmount d \<Rightarrow> d | _ \<Rightarrow> 0)"

definition get_request :: "db \<Rightarrow> nat \<Rightarrow> AccountRequest option" where
  "get_request s req_id = find (\<lambda>r. ar_id r = req_id) (account_requests s)"

definition get_branch :: "db \<Rightarrow> nat \<Rightarrow> Branch option" where
  "get_branch s b = find (\<lambda>br. br_id br = b) (branches s)"

definition get_seq :: "db \<Rightarrow> nat \<Rightarrow> AccountNumberSeq option" where
  "get_seq s b = find (\<lambda>q. seq_branch_id q = b) (account_number_seq s)"

text \<open>
  The sequence row of the branch, created with serial 1000000001 and flushed when the
  branch has none yet.
\<close>

definition ensure_seq :: "db \<Rightarrow> nat \<Rightarrow> db \<times> AccountNumberSeq" where
  "ensure_seq s b =
     (case get_seq s b of
        Some q \<Rightarrow> (s, q)
      | None \<Rightarrow>
          (let q = \<lparr>seq_id = next_seq_id s, seq_branch_id = b, next_serial = 1000000001\<rparr>
           in (s\<lparr>account_number_seq := account_number_seq s @ [q],
                 next_seq_id := Suc (next_seq_id s)\<rparr>, q)))"

text \<open>The ORM writes a changed attribute back to the row with the object's primary key.\<close>

definition set_next_serial :: "db \<Rightarrow> AccountNumberSeq \<Rightarrow> nat \<Rightarrow> db" where
  "set_next_serial s q v =
     s\<lparr>account_number_seq :=
          map (\<lambda>r. if seq_id r = seq_id q then r\<lparr>next_serial := v\<rparr> else r)
            (account_number_seq s)\<rparr>"

definition set_request_status :: "db \<Rightarrow> AccountRequest \<Rightarrow> RequestStatus \<Rightarrow> db" where
  "set_request_status s ar st =
     s\<lparr>account_requests :=
          map (\<lambda>r. if ar_id r = ar_id ar then r\<lparr>ar_status := st\<rparr> else r)
            (account_requests s)\<rparr>"

definition add_account :: "db \<Rightarrow> nat \<Rightarrow> nat \<Rightarrow> string \<Rightarrow> string \<Rightarrow> AccountStatus \<Rightarrow> db \<times> Account" where
  "add_account s cust b no product st =
     (let acc = \<lparr>acc_id = next_acc_id s, acc_customer_id = cust, acc_branch_id = b,
                 account_no = no, acc_product = product, acc_status = st\<rparr>
      in (s\<lparr>accounts := accounts s @ [acc], next_acc_id := Suc (next_acc_id s)\<rparr>, acc))"

definition ops_approve_request ::
  "db \<Rightarrow> nat \<Rightarrow> nat \<Rightarrow> init_raw \<Rightarrow> timestamp \<Rightarrow> db \<times> (error + approve_ok)" where
  "ops_approve_request s uid req_id init now =
     (if \<not> (has_role s uid ''EMPLOYEE'' \<or> has_role s uid ''ADMIN'') then (s, Inl RoleRequired)
      else
     (case parse_initial_deposit init of
        Inl err \<Rightarrow> (s, Inl err)
      | Inr init_amt \<Rightarrow>
     (case get_request s req_id of
        None \<Rightarrow> (s, Inl RequestNotFound)
      | Some ar \<Rightarrow>
     if ar_status ar \<noteq> PENDING then (s, Inl (RequestAlready (ar_status ar)))
     else
     (case get_branch s (ar_branch_id ar) of
        None \<Rightarrow> (s, Inl BranchNotFound)
      | Some br \<Rightarrow>
       (let (s1, seq) = ensure_seq s (br_id br);
            serial = next_serial seq;
            s2 = set_next_serial s1 seq (serial + 1);
            acct_no = br_code br @ string_of_nat serial;
            (s3, acc) = add_account s2 (ar_customer_id ar) (br_id br) acct_no (ar_product ar) ACTIVE;
            s4 = (if init_amt > 0
                  then (let (t1, txid) = add_transaction s3 DEPOSIT uid now;
                            t2 = add_ledger_entry t1 txid None (Some GL_CASH_VAULT) ''DR'' init_amt now
                        in add_ledger_entry t2 txid (Some (acc_id acc)) None ''CR'' init_amt now)
                  else s3);
            s5 = set_request_status s4 ar APPROVED
        in (s5, Inr \<lparr>ap_account_id = acc_id acc, ap_account_no = account_no acc,
                     ap_request_status = APPROVED,
                     ap_initial_deposit = float_of_decimal init_amt\<rparr>))))))"





definition succeeded :: "error + 'a \<Rightarrow> bool" where
  "succeeded r = (case r of Inl _ \<Rightarrow> False | Inr _ \<Rightarrow> True)"

section \<open>Cash deposits (ops\_post\_deposit, ops\_accept\_cash\_deposit)\<close>

text \<open>
  \<^verbatim>\<open>f"CD{tx.id:08d}"\<close>: the decimal id, padded with zeros on the left to eight digits.
\<close>

definition receipt_no :: "nat \<Rightarrow> string" where
  "receipt_no txid =
     ''CD'' @ replicate (8 - length (string_of_nat txid)) (CHR ''0'') @ string_of_nat txid"

record deposit_ok =
  dp_transaction_id :: nat
  dp_account_id :: nat
  dp_account_no :: string
  dp_posted_amount :: pyfloat
  dp_new_balance :: pyfloat
  dp_receipt_no :: string

text \<open>
  \<^verbatim>\<open>POST /ops/deposits/post\<close>. \<open>account_id\<close> is the \<^verbatim>\<open>account_id\<close> field (\<open>None\<close> when
  absent, and \<^verbatim>\<open>Account.query.get(None)\<close> finds nothing); \<open>amount_raw\<close> is \<open>None\<close> when
  \<^verbatim>\<open>Decimal(str(...))\<close> raises, which it does on an absent amount.
\<close>

definition ops_post_deposit ::
  "db \<Rightarrow> nat \<Rightarrow> nat option \<Rightarrow> money option \<Rightarrow> timestamp \<Rightarrow> db \<times> (error + deposit_ok)" where
  "ops_post_deposit s uid account_id amount_raw now =
     (if \<not> (has_role s uid ''EMPLOYEE'' \<or> has_role s uid ''ADMIN'') then (s, Inl RoleRequired)
      else
     (case amount_raw of
        None \<Rightarrow> (s, Inl InvalidAmount)
      | Some amt \<Rightarrow>
     if amt \<le> 0 then (s, Inl AmountMustBePositive)
     else
     (case (case account_id of None \<Rightarrow> None | Some i \<Rightarrow> get_account s i) of
        None \<Rightarrow> (s, Inl AccountNotFound)
      | Some acc \<Rightarrow>
     if acc_status acc \<noteq> ACTIVE then (s, Inl AccountNotActive)
     else
       (let (s1, txid) = add_transaction s DEPOSIT uid now;
            s2 = add_ledger_entry s1 txid None (Some GL_CASH_VAULT) ''DR'' amt now;
            s3 = add_ledger_entry s2 txid (Some (acc_id acc)) None ''CR'' amt now;
            cr = sum_amount s3 (acc_id acc) ''CR'';
            dr = sum_amount s3 (acc_id acc) ''DR'';
            new_bal = cr - dr
        in (s3, Inr \<lparr>dp_transaction_id = txid, dp_account_id = acc_id acc,
                     dp_account_no = account_no acc,
                     dp_posted_amount = float_of_decimal amt,
                     dp_new_balance = float_of_decimal new_bal,
                     dp_receipt_no = receipt_no txid\<rparr>)))))"

record accept_ok =
  ad_deposit :: deposit_ok
  ad_depositor_name :: string
  ad_note :: string

text \<open>
  \<^verbatim>\<open>POST /ops/deposits/accept\<close>, the teller flow by account number. The texts are the
  stripped fields; an absent amount reads as \<^verbatim>\<open>Decimal("0")\<close>. \<^verbatim>\<open>LedgerEntry\<close> has no
  \<^verbatim>\<open>memo\<close> attribute, so the teller's note is not stored.
\<close>

definition ops_accept_cash_deposit ::
  "db \<Rightarrow> nat \<Rightarrow> string \<Rightarrow> string \<Rightarrow> string \<Rightarrow> money option \<Rightarrow> timestamp
     \<Rightarrow> db \<times> (error + accept_ok)" where
  "ops_accept_cash_deposit s uid acct_no depositor_name teller_note amount_raw now =
     (if \<not> (has_role s uid ''EMPLOYEE'' \<or> has_role s uid ''ADMIN'') then (s, Inl RoleRequired)
      else
     (case amount_raw of
        None \<Rightarrow> (s, Inl InvalidAmount)
      | Some amt \<Rightarrow>
     if amt \<le> 0 then (s, Inl AmountMustBePositive)
     else if acct_no = [] then (s, Inl AccountNoRequired)
     else
     (case account_by_no s acct_no of
        None \<Rightarrow> (s, Inl AccountNotFound)
      | Some acc \<Rightarrow>
     if acc_status acc \<noteq> ACTIVE then (s, Inl AccountNotActive)
     else
       (let (s1, txid) = add_transaction s DEPOSIT uid now;
            s2 = add_ledger_entry s1 txid None (Some GL_CASH_VAULT) ''DR'' amt now;
            s3 = add_ledger_entry s2 txid (Some (acc_id acc)) None ''CR'' amt now;
            cr = sum_amount s3 (acc_id acc) ''CR'';
            dr = sum_amount s3 (acc_id acc) ''DR'';
            new_bal = cr - dr
        in (s3, Inr \<lparr>ad_deposit =
                       \<lparr>dp_transaction_id = txid, dp_account_id = acc_id acc,
                        dp_account_no = account_no acc,
                        dp_posted_amount = float_of_decimal amt,
                        dp_new_balance = float_of_decimal new_bal,
                        dp_receipt_no = receipt_no txid\<rparr>,
                     ad_depositor_name = depositor_name, ad_note = teller_note\<rparr>)))))"

section \<open>Loan disbursal (ops\_loan\_disburse)\<close>

text \<open>
  A request field that is parsed with a fallback: \<open>Absent\<close> when the field is missing or
  falsy (the \<^verbatim>\<open>or\<close> then supplies the default), \<open>Unreadable\<close> when the conversion raises,
  else the value read.
\<close>

datatype 'a field = Absent | Unreadable | Given 'a

record disburse_ok =
  ld_loan_app_id :: nat
  ld_account_id :: nat
  ld_account_no :: string
  ld_disbursed_amount :: pyfloat

definition get_loan_application :: "db \<Rightarrow> nat \<Rightarrow> LoanApplication option" where
  "get_loan_application s i = find (\<lambda>a. la_id a = i) (loan_applications s)"

definition get_loan_detail :: "db \<Rightarrow> nat \<Rightarrow> LoanApplicationDetail option" where
  "get_loan_detail s app_id = find (\<lambda>d. lad_application_id d = app_id) (loan_application_details s)"

definition set_loan_detail :: "db \<Rightarrow> LoanApplicationDetail \<Rightarrow> int \<Rightarrow> int \<Rightarrow> string \<Rightarrow> db" where
  "set_loan_detail s lad rate term stage =
     s\<lparr>loan_application_details :=
          map (\<lambda>d. if lad_id d = lad_id lad
                    then d\<lparr>lad_rate_pa := Some rate, lad_tenure_months := term, lad_stage := stage\<rparr>
                    else d)
            (loan_application_details s)\<rparr>"

definition add_loan_history :: "db \<Rightarrow> nat \<Rightarrow> string \<Rightarrow> string \<Rightarrow> string \<Rightarrow> nat \<Rightarrow> db" where
  "add_loan_history s app_id from_stage to_stage remarks actor =
     s\<lparr>loan_app_history := loan_app_history s @
          [\<lparr>lah_id = next_lah_id s, lah_application_id = app_id, lah_from_stage = from_stage,
            lah_to_stage = to_stage, lah_remarks = remarks, lah_actor_user_id = actor\<rparr>],
       next_lah_id := Suc (next_lah_id s)\<rparr>"

text \<open>
  \<^verbatim>\<open>POST /ops/loans/<id>/disburse\<close>. The rate is in hundredths of a percent per year
  (default 10.0), the term in months (default 12), the amount defaults to the amount of
  the application.
\<close>

definition ops_loan_disburse ::
  "db \<Rightarrow> nat \<Rightarrow> nat \<Rightarrow> string \<Rightarrow> money field \<Rightarrow> int field \<Rightarrow> int field \<Rightarrow> timestamp
     \<Rightarrow> db \<times> (error + disburse_ok)" where
  "ops_loan_disburse s uid loan_app_id acct_no disburse_amount_raw rate_raw term_raw now =
     (if \<not> (has_role s uid ''EMPLOYEE'' \<or> has_role s uid ''ADMIN'') then (s, Inl Forbidden)
      else
     (case (case rate_raw of Absent \<Rightarrow> Some 1000 | Unreadable \<Rightarrow> None | Given r \<Rightarrow> Some r) of
        None \<Rightarrow> (s, Inl InvalidRate)
      | Some rate_pa \<Rightarrow>
     (case (case term_raw of Absent \<Rightarrow> Some 12 | Unreadable \<Rightarrow> None | Given m \<Rightarrow> Some m) of
        None \<Rightarrow> (s, Inl InvalidTerm)
      | Some term_months \<Rightarrow>
     (case get_loan_application s loan_app_id of
        None \<Rightarrow> (s, Inl LoanApplicationNotFound)
      | Some app \<Rightarrow>
     if la_status app \<noteq> APPROVED then (s, Inl LoanNotApproved)
     else
     (case account_by_no s acct_no of
        None \<Rightarrow> (s, Inl AccountNotFound)
      | Some acc \<Rightarrow>
     if acc_status acc \<noteq> ACTIVE then (s, Inl AccountNotActive)
     else
     (case (case disburse_amount_raw of
              Absent \<Rightarrow> Some (la_amount app) | Unreadable \<Rightarrow> None | Given d \<Rightarrow> Some d) of
        None \<Rightarrow> (s, Inl InvalidDisburseAmount)
      | Some disburse_amount \<Rightarrow>
     if disburse_amount \<le> 0 then (s, Inl DisburseAmountMustBePositive)
     else
       (let (s1, txid) = add_transaction s LOAN_DISBURSAL uid now;
            s2 = add_ledger_entry s1 txid None (Some GL_BANK_LOAN) ''DR'' disburse_amount now;
            s3 = add_ledger_entry s2 txid (Some (acc_id acc)) None ''CR'' disburse_amount now;
            s4 = (case get_loan_detail s3 (la_id app) of
                    None \<Rightarrow> s3
                  | Some lad \<Rightarrow> set_loan_detail s3 lad rate_pa term_months ''DISBURSED'');
            s5 = add_loan_history s4 (la_id app) ''APPROVED'' ''DISBURSED''
                   (''Loan disbursed to '' @ acct_no) uid
        in (s5, Inr \<lparr>ld_loan_app_id = la_id app, ld_account_id = acc_id acc,
                     ld_account_no = account_no acc,
                     ld_disbursed_amount = float_of_decimal disburse_amount\<rparr>))))))))"

section \<open>The posting operations together\<close>

text \<open>
  One request to any of the five handlers that post to the ledger, and the database such
  a request leaves behind. \<open>run\<close> handles a list of requests one after the other.
\<close>

datatype call =
    ApproveRequest nat nat init_raw timestamp
  | PostDeposit nat "nat option" "money option" timestamp
  | AcceptCashDeposit nat string string string "money option" timestamp
  | IbTransfer nat transfer_request timestamp
  | LoanDisburse nat nat string "money field" "int field" "int field" timestamp

fun handle :: "runtime \<Rightarrow> db \<Rightarrow> call \<Rightarrow> db" where
  "handle rt s (ApproveRequest uid req_id init now) =
     fst (ops_approve_request s uid req_id init now)"
| "handle rt s (PostDeposit uid account_id amount_raw now) =
     fst (ops_post_deposit s uid account_id amount_raw now)"
| "handle rt s (AcceptCashDeposit uid acct_no depositor_name teller_note amount_raw now) =
     fst (ops_accept_cash_deposit s uid acct_no depositor_name teller_note amount_raw now)"
| "handle rt s (IbTransfer uid rq now) = fst (ib_transfer rt s uid rq now)"
| "handle rt s (LoanDisburse uid loan_app_id acct_no amount_raw rate_raw term_raw now) =
     fst (ops_loan_disburse s uid loan_app_id acct_no amount_raw rate_raw term_raw now)"

definition run :: "runtime \<Rightarrow> db \<Rightarrow> call list \<Rightarrow> db" where
  "run rt s calls = foldl (handle rt) s calls"

text \<open>
  The sum of the amounts of the entries of transaction \<open>t\<close> on one side, and the
  double-entry condition: every row of the transactions table has equal DEBIT and CREDIT
  sums.
\<close>

definition tx_sum :: "db \<Rightarrow> nat \<Rightarrow> string \<Rightarrow> money" where
  "tx_sum s t side =
     sum_list (map amount
       (filter (\<lambda>e. le_transaction_id e = t \<and> dr_cr e = side) (ledger_entries s)))"

definition double_entry :: "db \<Rightarrow> bool" where
  "double_entry s = list_all (\<lambda>t. tx_sum s (tx_id t) ''DR'' = tx_sum s (tx_id t) ''CR'') (transactions s)"

text \<open>Every entry refers to a transaction id that the counter has already issued.\<close>

definition entries_issued :: "db \<Rightarrow> bool" where
  "entries_issued s = list_all (\<lambda>e. le_transaction_id e < next_tx_id s) (ledger_entries s)"

text \<open>
  What a handler may do to the ledger: nothing, or post one new transaction with a DEBIT
  entry and a CREDIT entry of the same amount.
\<close>

definition ledger_same :: "db \<Rightarrow> db \<Rightarrow> bool" where
  "ledger_same s s' =
     (transactions s' = transactions s \<and> ledger_entries s' = ledger_entries s \<and>
      next_tx_id s' = next_tx_id s)"

definition posted_pair :: "db \<Rightarrow> db \<Rightarrow> bool" where
  "posted_pair s s' =
     (\<exists>t e1 e2.
        transactions s' = transactions s @ [t] \<and> tx_id t = next_tx_id s \<and>
        tx_status t = POSTED \<and>
        next_tx_id s' = Suc (next_tx_id s) \<and>
        ledger_entries s' = ledger_entries s @ [e1, e2] \<and>
        le_transaction_id e1 = next_tx_id s \<and> le_transaction_id e2 = next_tx_id s \<and>
        dr_cr e1 = ''DR'' \<and> dr_cr e2 = ''CR'' \<and> amount e1 = amount e2)"


section \<open>Transaction history (account\_transactions)\<close>

text \<open>
  The query string: \<^verbatim>\<open>limit\<close> is absent (or empty), not an integer, or an integer;
  \<^verbatim>\<open>before\<close> is absent (or empty), rejected by both date parsers, or a point in time.
\<close>

datatype limit_arg = LimitAbsent | LimitUnreadable | LimitInt int

datatype before_arg = BeforeAbsent | BeforeInvalid | BeforeAt timestamp

definition page_limit :: "limit_arg \<Rightarrow> int" where
  "page_limit limit_raw =
     (let limit = (case limit_raw of LimitAbsent \<Rightarrow> 20 | LimitUnreadable \<Rightarrow> 20 | LimitInt n \<Rightarrow> n)
      in max 1 (min limit 100))"

text \<open>
  The join of the account's ledger entries with their transactions
  (\<^verbatim>\<open>join(Transaction, Transaction.id == LedgerEntry.transaction_id)\<close>,
  \<^verbatim>\<open>filter(LedgerEntry.account_id == account_id)\<close>).
\<close>

definition account_rows :: "db \<Rightarrow> nat \<Rightarrow> (LedgerEntry \<times> Transaction) list" where
  "account_rows s account_id =
     concat (map (\<lambda>le. map (Pair le)
                          (filter (\<lambda>tx. tx_id tx = le_transaction_id le) (transactions s)))
               (filter (\<lambda>le. le_account_id le = Some account_id) (ledger_entries s)))"

text \<open>
  \<^verbatim>\<open>filter(LedgerEntry.posted_at < before_dt)\<close>, applied only when a cursor is given. A
  comparison with NULL is not true in SQL, so a row without \<open>posted_at\<close> fails it.
\<close>

fun before_ok :: "before_arg \<Rightarrow> LedgerEntry \<times> Transaction \<Rightarrow> bool" where
  "before_ok (BeforeAt b) (le, tx) = (case posted_at le of None \<Rightarrow> False | Some t \<Rightarrow> t < b)"
| "before_ok _ (le, tx) = True"

text \<open>
  \<^verbatim>\<open>order_by(desc(LedgerEntry.posted_at), desc(LedgerEntry.id)).limit(limit)\<close>: the rows
  in descending order of the pair (posting time, entry id), compared lexicographically.
  In the descending order of the database NULL comes after every time, as \<open>None\<close> is
  below every \<open>Some t\<close>.
\<close>

definition row_key :: "LedgerEntry \<times> Transaction \<Rightarrow> timestamp option \<times> nat" where
  "row_key r = (posted_at (fst r), le_id (fst r))"

definition history_rows ::
  "db \<Rightarrow> nat \<Rightarrow> before_arg \<Rightarrow> int \<Rightarrow> (LedgerEntry \<times> Transaction) list" where
  "history_rows s account_id before limit =
     take (nat limit) (rev (sort_key row_key (filter (before_ok before) (account_rows s account_id))))"

text \<open>Python's \<^verbatim>\<open>str.upper\<close> on the ASCII letters; other characters are kept.\<close>

definition upper_char :: "char \<Rightarrow> char" where
  "upper_char c =
     (case map_of (zip ''abcdefghijklmnopqrstuvwxyz'' ''ABCDEFGHIJKLMNOPQRSTUVWXYZ'') c of
        None \<Rightarrow> c
      | Some u \<Rightarrow> u)"

definition upper :: "string \<Rightarrow> string" where
  "upper w = map upper_char w"

text \<open>
  The sibling query of \<^verbatim>\<open>_format_counterparty\<close>: the entries of the same transaction
  that reference an account other than the entry's own, or no account but a
  general-ledger code, in ascending order of id.
\<close>

definition siblings :: "db \<Rightarrow> LedgerEntry \<Rightarrow> LedgerEntry list" where
  "siblings s le =
     sort_key le_id
       (filter (\<lambda>e. le_transaction_id e = le_transaction_id le \<and>
                     ((le_account_id e \<noteq> None \<and> le_account_id e \<noteq> le_account_id le) \<or>
                      (le_account_id e = None \<and> gl_code e \<noteq> None)))
          (ledger_entries s))"

text \<open>
  \<^verbatim>\<open>if s.account_id:\<close> holds for an id that is neither NULL nor 0.
\<close>

definition has_account_id :: "LedgerEntry \<Rightarrow> bool" where
  "has_account_id e = (case le_account_id e of None \<Rightarrow> False | Some a \<Rightarrow> a \<noteq> 0)"

definition gl_label :: "string option \<Rightarrow> string" where
  "gl_label g =
     (if upper (case g of None \<Rightarrow> [] | Some c \<Rightarrow> c) = GL_CASH_VAULT then ''CASH''
      else ''GL:'' @ (case g of None \<Rightarrow> ''None'' | Some c \<Rightarrow> c))"

text \<open>
  \<^verbatim>\<open>_format_counterparty\<close> returns the tuple
  \<^verbatim>\<open>(is_account, label, account_no, gl_code)\<close>.
\<close>

definition format_counterparty ::
  "db \<Rightarrow> LedgerEntry \<Rightarrow> bool \<times> string \<times> string option \<times> string option" where
  "format_counterparty s le =
     (case siblings s le of
        [] \<Rightarrow> (False, ''N/A'', None, None)
      | sb # _ \<Rightarrow>
          if has_account_id sb
          then (case get_account s (the (le_account_id sb)) of
                  Some other_acc \<Rightarrow> (True, account_no other_acc, Some (account_no other_acc), None)
                | None \<Rightarrow> (True, ''Account'', None, None))
          else (False, gl_label (gl_code sb), None, gl_code sb))"

text \<open>
  One item of the response. The \<^verbatim>\<open>date\<close> and \<^verbatim>\<open>time\<close> texts of the source are
  renderings of \<open>hi_posted_at\<close> and are left out.
\<close>

record history_item =
  hi_posted_at :: "timestamp option"
  hi_type :: TxType
  hi_from :: string
  hi_to :: string
  hi_from_account_no :: "string option"
  hi_to_account_no :: "string option"
  hi_dr_cr :: string
  hi_amount :: pyfloat

definition or_else :: "'a option \<Rightarrow> 'a option \<Rightarrow> 'a option" where
  "or_else a b = (case a of None \<Rightarrow> b | Some x \<Rightarrow> Some x)"

definition or_na :: "string \<Rightarrow> string" where
  "or_na label = (if label = [] then ''N/A'' else label)"

definition format_row :: "db \<Rightarrow> Account \<Rightarrow> LedgerEntry \<times> Transaction \<Rightarrow> history_item" where
  "format_row s acc r =
     (let le = fst r; tx = snd r;
          (is_acc, cp_label, cp_acc_no, cp_gl) = format_counterparty s le;
          this_acc_no = account_no acc;
          dt = or_else (posted_at le) (tx_created_at tx)
      in if upper (dr_cr le) = ''CR''
         then \<lparr>hi_posted_at = dt, hi_type = tx_type tx,
               hi_from = or_na cp_label, hi_to = this_acc_no,
               hi_from_account_no = (if is_acc then cp_acc_no else None),
               hi_to_account_no = Some this_acc_no,
               hi_dr_cr = dr_cr le, hi_amount = float_of_decimal (amount le)\<rparr>
         else \<lparr>hi_posted_at = dt, hi_type = tx_type tx,
               hi_from = this_acc_no, hi_to = or_na cp_label,
               hi_from_account_no = Some this_acc_no,
               hi_to_account_no = (if is_acc then cp_acc_no else None),
               hi_dr_cr = dr_cr le, hi_amount = float_of_decimal (amount le)\<rparr>)"

record history_page =
  hp_items :: "history_item list"
  hp_next_before :: "timestamp option"

text \<open>
  \<^verbatim>\<open>GET /accounts/<id>/transactions\<close>. \<open>hp_next_before\<close> is \<open>None\<close> for the empty text.
\<close>

definition account_transactions ::
  "db \<Rightarrow> nat \<Rightarrow> nat \<Rightarrow> before_arg \<Rightarrow> limit_arg \<Rightarrow> db \<times> (error + history_page)" where
  "account_transactions s uid account_id before_raw limit_raw =
     (case (get_customer s uid, get_account s account_id) of
        (None, _) \<Rightarrow> (s, Inl AccountNotFound)
      | (Some cust, None) \<Rightarrow> (s, Inl AccountNotFound)
      | (Some cust, Some acc) \<Rightarrow>
     if acc_customer_id acc \<noteq> cust_id cust then (s, Inl AccountNotFound)
     else
       (let limit = page_limit limit_raw in
        if before_raw = BeforeInvalid then (s, Inl InvalidBeforeCursor)
        else
          (let rows = history_rows s account_id before_raw limit;
               items = map (format_row s acc) rows;
               next_before =
                 (if rows = [] then None
                  else or_else (posted_at (fst (last rows))) (tx_created_at (snd (last rows))))
           in (s, Inr \<lparr>hp_items = items, hp_next_before = next_before\<rparr>))))"

subsection \<open>The history order and the counterparty as the specification words them\<close>

text \<open>
  Entry \<open>x\<close> may precede entry \<open>y\<close> on a page: it was posted later, or at the same time
  with an id that is not smaller.
\<close>

definition precedes :: "LedgerEntry \<Rightarrow> LedgerEntry \<Rightarrow> bool" where
  "precedes x y =
     (posted_at y < posted_at x \<or> (posted_at x = posted_at y \<and> le_id y \<le> le_id x))"

text \<open>Every ledger entry belongs to exactly one row of the transactions table.\<close>

definition tx_integrity :: "db \<Rightarrow> bool" where
  "tx_integrity s =
     list_all (\<lambda>e. length (filter (\<lambda>tx. tx_id tx = le_transaction_id e) (transactions s)) = 1)
       (ledger_entries s)"






section \<open>A sample database\<close>

text \<open>
  Two customers (users 10 and 20) with one ACTIVE account each in branch B001, a third
  customer (user 40) with three pending account requests and no account yet, a teller
  (user 30, role EMPLOYEE), and a ledger of three posted transactions: two cash deposits
  of 500.00 into account 1 and a transfer of 200.00 from account 1 to account 2. Branch
  B002 has not issued an account number yet.
\<close>

definition mk_entry ::
  "nat \<Rightarrow> nat \<Rightarrow> nat option \<Rightarrow> string option \<Rightarrow> string \<Rightarrow> money \<Rightarrow> timestamp \<Rightarrow> LedgerEntry" where
  "mk_entry i t a g side amt ts =
     \<lparr>le_id = i, le_transaction_id = t, le_account_id = a, gl_code = g, dr_cr = side,
      amount = amt, posted_at = Some ts\<rparr>"

definition mk_tx :: "nat \<Rightarrow> TxType \<Rightarrow> nat \<Rightarrow> timestamp \<Rightarrow> Transaction" where
  "mk_tx i ty u ts =
     \<lparr>tx_id = i, tx_type = ty, tx_status = POSTED, tx_created_by = Some u,
      tx_created_at = Some ts\<rparr>"

definition sample_accounts :: "Account list" where
  "sample_accounts =
     [\<lparr>acc_id = 1, acc_customer_id = 1, acc_branch_id = 1, account_no = ''B0011000000001'',
       acc_product = ''SAVINGS'', acc_status = ACTIVE\<rparr>,
      \<lparr>acc_id = 2, acc_customer_id = 2, acc_branch_id = 1, account_no = ''B0011000000002'',
       acc_product = ''SAVINGS'', acc_status = ACTIVE\<rparr>]"

definition sample_ledger :: "LedgerEntry list" where
  "sample_ledger =
     [mk_entry 1 1 None (Some ''CASH_VAULT'') ''DR'' 50000 100,
      mk_entry 2 1 (Some 1) None ''CR'' 50000 100,
      mk_entry 3 2 None (Some ''CASH_VAULT'') ''DR'' 50000 200,
      mk_entry 4 2 (Some 1) None ''CR'' 50000 200,
      mk_entry 5 3 (Some 1) None ''DR'' 20000 300,
      mk_entry 6 3 (Some 2) None ''CR'' 20000 300]"

definition sample_db :: db where
  "sample_db =
     \<lparr>roles = [\<lparr>role_id = 1, role_name = ''CUSTOMER''\<rparr>, \<lparr>role_id = 2, role_name = ''EMPLOYEE''\<rparr>,
               \<lparr>role_id = 3, role_name = ''ADMIN''\<rparr>],
      user_roles = [\<lparr>ur_id = 1, ur_user_id = 30, ur_role_id = 2\<rparr>],
      customers = [\<lparr>cust_id = 1, cust_user_id = 10\<rparr>, \<lparr>cust_id = 2, cust_user_id = 20\<rparr>,
                   \<lparr>cust_id = 3, cust_user_id = 40\<rparr>],
      branches = [\<lparr>br_id = 1, br_code = ''B001''\<rparr>, \<lparr>br_id = 2, br_code = ''B002''\<rparr>],
      account_number_seq = [\<lparr>seq_id = 1, seq_branch_id = 1, next_serial = 1000000003\<rparr>],
      account_requests =
        [\<lparr>ar_id = 1, ar_customer_id = 1, ar_branch_id = 1, ar_product = ''SAVINGS'',
          ar_status = APPROVED\<rparr>,
         \<lparr>ar_id = 2, ar_customer_id = 2, ar_branch_id = 1, ar_product = ''SAVINGS'',
          ar_status = APPROVED\<rparr>,
         \<lparr>ar_id = 3, ar_customer_id = 3, ar_branch_id = 1, ar_product = ''CURRENT'',
          ar_status = PENDING\<rparr>,
         \<lparr>ar_id = 4, ar_customer_id = 3, ar_branch_id = 2, ar_product = ''SAVINGS'',
          ar_status = PENDING\<rparr>,
         \<lparr>ar_id = 5, ar_customer_id = 3, ar_branch_id = 1, ar_product = ''SALARY'',
          ar_status = PENDING\<rparr>],
      accounts = sample_accounts,
      internet_banking = [\<lparr>ib_id = 1, ib_account_id = 1, pin_hash = ''1234''\<rparr>],
      transactions = [mk_tx 1 DEPOSIT 30 100, mk_tx 2 DEPOSIT 30 200, mk_tx 3 TRANSFER 10 300],
      ledger_entries = sample_ledger,
      loan_applications =
        [\<lparr>la_id = 1, la_customer_id = 2, la_amount = 2500000, la_status = APPROVED\<rparr>],
      loan_application_details =
        [\<lparr>lad_id = 1, lad_application_id = 1, lad_tenure_months = 12, lad_rate_pa = None,
          lad_stage = ''APPROVED''\<rparr>],
      loan_app_history = [],
      next_seq_id = 2, next_acc_id = 3, next_tx_id = 4, next_le_id = 7, next_lah_id = 1\<rparr>"

text \<open>
  The libraries of the samples: PIN 1234 matches its stored hash, and the superscript two
  (code point 178) is a digit beyond ASCII.
\<close>

definition sample_rt :: runtime where
  "sample_rt =
     \<lparr>bcrypt_verify = (\<lambda>p h. p = [49, 50, 51, 52] \<and> h = ''1234''),
      isdigit_beyond_ascii = (\<lambda>c. c = 178)\<rparr>"

definition rq_same :: transfer_request where
  "rq_same =
     \<lparr>tr_from = ByNo ''B0011000000001'', tr_to = ById 1, tr_amount = Some (DecFinite 0),
      tr_pin = []\<rparr>"

definition rq_over :: transfer_request where
  "rq_over =
     \<lparr>tr_from = ByNo ''B0011000000001'', tr_to = ByNo ''B0011000000002'',
      tr_amount = Some (DecFinite 90000), tr_pin = [49, 50, 51, 52]\<rparr>"

lemmas sample_defs = sample_db_def sample_accounts_def sample_ledger_def mk_entry_def mk_tx_def

lemmas lookup_defs = get_customer_def get_account_def account_by_no_def get_ib_def
  first_account_for_user_def require_any_account_def



lemmas approve_defs = ops_approve_request_def has_role_def parse_initial_deposit_def
  get_request_def get_branch_def ensure_seq_def get_seq_def set_next_serial_def add_account_def
  add_transaction_def add_ledger_entry_def set_request_status_def

definition sample_transfer :: transfer_request where
  "sample_transfer =
     \<lparr>tr_from = ById 1, tr_to = ByNo ''B0011000000002'', tr_amount = Some (DecFinite 30000),
      tr_pin = [49, 50, 51, 52]\<rparr>"

definition sample_calls :: "call list" where
  "sample_calls =
     [ApproveRequest 30 5 (InitAmount 10000) 400,
      PostDeposit 30 (Some 2) (Some 100000) 410,
      AcceptCashDeposit 30 ''B0011000000001'' ''A. Depositor'' '''' (Some 2500) 420,
      IbTransfer 10 sample_transfer 430,
      IbTransfer 10 rq_over 440,
      LoanDisburse 30 1 ''B0011000000002'' Absent Absent (Given 24) 450]"

lemmas handler_defs = ops_post_deposit_def ops_accept_cash_deposit_def ib_transfer_def
  transfer_checks_def transfer_post_def sample_rt_def
  ops_loan_disburse_def get_loan_application_def get_loan_detail_def set_loan_detail_def
  add_loan_history_def pin_well_formed_def isdigit_def sum_amount_def

definition sample_page :: history_page where
  "sample_page =
     \<lparr>hp_items =
        [\<lparr>hi_posted_at = Some 200, hi_type = DEPOSIT, hi_from = ''CASH'',
          hi_to = ''B0011000000001'', hi_from_account_no = None,
          hi_to_account_no = Some ''B0011000000001'', hi_dr_cr = ''CR'',
          hi_amount = float_of_decimal 50000\<rparr>],
      hp_next_before = Some 200\<rparr>"

lemmas history_defs = account_transactions_def history_rows_def account_rows_def page_limit_def
  row_key_def format_row_def format_counterparty_def siblings_def has_account_id_def gl_label_def
  upper_def upper_char_def or_else_def or_na_def GL_CASH_VAULT_def

definition sample_short_page :: history_page where
  "sample_short_page =
     \<lparr>hp_items =
        [\<lparr>hi_posted_at = Some 300, hi_type = TRANSFER, hi_from = ''B0011000000001'',
          hi_to = ''B0011000000002'', hi_from_account_no = Some ''B0011000000001'',
          hi_to_account_no = Some ''B0011000000002'', hi_dr_cr = ''CR'',
          hi_amount = float_of_decimal 20000\<rparr>],
      hp_next_before = Some 300\<rparr>"



text \<open>
  Seventy cash deposits of 999999999999.99, the largest amount of a \<open>Numeric(14, 2)\<close>
  column, and one of 368744176864.71 into account 1 of the sample database bring its
  balance from 800.00 to 70368744177664.01.
\<close>

definition big_deposits :: "call list" where
  "big_deposits =
     replicate 70 (PostDeposit 30 (Some 1) (Some 99999999999999) 400) @
     [PostDeposit 30 (Some 1) (Some 36874417686471) 400]"

definition big_db :: db where
  "big_db = run sample_rt sample_db big_deposits"


text \<open>A transfer of the whole balance of account 1, 800.00, to account 2.\<close>

definition rq_all :: transfer_request where
  "rq_all =
     \<lparr>tr_from = ById 1, tr_to = ById 2, tr_amount = Some (DecFinite 80000),
      tr_pin = [49, 50, 51, 52]\<rparr>"

text \<open>
  Two databases with the same roles, customers, accounts and PIN credentials.
\<close>

definition same_parties :: "db \<Rightarrow> db \<Rightarrow> bool" where
  "same_parties s s' =
     (roles s' = roles s \<and> user_roles s' = user_roles s \<and> customers s' = customers s \<and>
      accounts s' = accounts s \<and> internet_banking s' = internet_banking s)"

section \<open>Rounding to binary64\<close>

lemma bit_length_bounds: "0 < n \<Longrightarrow> 2 ^ (bit_length n - 1) \<le> n \<and> n < 2 ^ bit_length n"
proof (induction n rule: bit_length.induct)
  case (1 n)
  show ?case
  proof (cases "n div 2 = 0")
    case True
    with "1.prems" have "n = 1" by (simp add: div_eq_0_iff)
    then show ?thesis by (simp add: bit_length.simps)
  next
    case False
    with "1.IH" "1.prems" have ih:
      "2 ^ (bit_length (n div 2) - 1) \<le> n div 2" "n div 2 < 2 ^ bit_length (n div 2)"
      by simp_all
    have bl: "bit_length n = Suc (bit_length (n div 2))"
      using "1.prems" by (subst bit_length.simps) simp
    have pos: "0 < bit_length (n div 2)"
      using False by (subst bit_length.simps) simp
    then obtain k where k: "bit_length (n div 2) = Suc k"
      by (cases "bit_length (n div 2)") simp_all
    from ih k have "2 ^ k \<le> n div 2" "n div 2 < 2 * 2 ^ k" by simp_all
    then have "2 * 2 ^ k \<le> n" "n < 2 * (2 * 2 ^ k)" by linarith+
    then show ?thesis by (simp add: bl k)
  qed
qed

lemma round_half_even_error:
  assumes "0 < d"
  shows "\<bar>int d * int (round_half_even p d) - int p\<bar> * 2 \<le> int d"
proof -
  have p: "int p = int d * int (p div d) + int (p mod d)"
    by (metis of_nat_add of_nat_mult mult_div_mod_eq)
  have r: "p mod d < d" using assms by simp
  show ?thesis
    using p r by (auto simp: round_half_even_def Let_def algebra_simps)
qed

lemma round_half_even_unique:
  assumes "0 < D" and "\<bar>int P - int a * int D\<bar> * 2 < int D"
  shows "round_half_even P D = a"
proof (cases "a * D \<le> P")
  case True
  then obtain r where P: "P = a * D + r"
    by (metis le_Suc_ex)
  with assms(2) have r: "2 * r < D" by simp
  then have rD: "r < D" by simp
  from P rD have "P div D = a" "P mod D = r" by simp_all
  with r show ?thesis
    by (simp add: round_half_even_def Let_def)
next
  case False
  then obtain r where aD: "a * D = P + r" and r0: "0 < r"
    by (metis less_imp_add_positive not_le_imp_less)
  then have "int P - int a * int D = - int r"
    by (metis (no_types, opaque_lifting) add_diff_cancel_left' of_nat_add of_nat_mult
        minus_diff_eq)
  with assms(2) have r: "2 * r < D" by simp
  from aD r0 obtain b where a: "a = Suc b" by (cases a) simp_all
  from aD a r have P: "P = b * D + (D - r)" by simp
  have "D - r < D" using r0 assms(1) by simp
  with P have "P div D = b" "P mod D = D - r" by simp_all
  moreover have "D < 2 * (D - r)" using r by linarith
  ultimately show ?thesis
    by (simp add: round_half_even_def Let_def a)
qed

lemma exponent_lower:
  assumes "0 < a"
  shows "2 ^ 52 * snd (scaled a (binary_exponent a)) \<le> fst (scaled a (binary_exponent a))"
proof (cases "2 ^ 52 * snd (scaled a (int (bit_length a) - 59))
              \<le> fst (scaled a (int (bit_length a) - 59))")
  case True
  then show ?thesis by (simp add: binary_exponent_def Let_def)
next
  case False
  then have e: "binary_exponent a = int (bit_length a) - 60"
    by (simp add: binary_exponent_def Let_def)
  from bit_length_bounds [OF assms] have lo: "2 ^ (bit_length a - 1) \<le> a" by simp
  show ?thesis
  proof (cases "60 \<le> bit_length a")
    case True
    then obtain j where L: "bit_length a = 60 + j"
      by (metis le_Suc_ex)
    from lo L have "(2::nat) ^ 59 * 2 ^ j \<le> a"
      by (simp add: power_add)
    moreover have "(2::nat) ^ 52 * (100 * 2 ^ j) \<le> 2 ^ 59 * 2 ^ j"
      by simp
    ultimately show ?thesis
      by (simp add: e L scaled_def)
  next
    case False
    then obtain j where j: "60 = bit_length a + j" and j0: "0 < j"
      by (metis less_imp_add_positive not_le_imp_less)
    have L0: "0 < bit_length a"
      using assms by (subst bit_length.simps) simp
    then obtain i where L: "bit_length a = Suc i"
      by (cases "bit_length a") simp_all
    from lo L have "2 ^ i * 2 ^ j \<le> a * 2 ^ j" by simp
    moreover from j L have "i + j = 59" by simp
    then have "(2::nat) ^ i * 2 ^ j = 2 ^ 59"
      by (metis power_add)
    ultimately have "(2::nat) ^ 59 \<le> a * 2 ^ j" by simp
    moreover have "nat (- (int (bit_length a) - 60)) = j" "\<not> 0 \<le> int (bit_length a) - 60"
      using j j0 by simp_all
    ultimately show ?thesis
      by (simp add: e scaled_def)
  qed
qed

lemma exponent_small:
  assumes "0 < a" and "a < 100 * 2 ^ 46"
  shows "binary_exponent a \<le> - 7"
proof (rule ccontr)
  assume "\<not> binary_exponent a \<le> - 7"
  then have big: "- 7 < binary_exponent a" by simp
  note lo = exponent_lower [OF assms(1)]
  show False
  proof (cases "0 \<le> binary_exponent a")
    case True
    define X where "X = (2::nat) ^ nat (binary_exponent a)"
    from True lo have "450359962737049600 * X \<le> a"
      by (simp add: scaled_def X_def)
    moreover have "1 \<le> X" by (simp add: X_def)
    moreover from assms(2) have "a < 7036874417766400" by simp
    ultimately show False by linarith
  next
    case False
    define X where "X = (2::nat) ^ nat (- binary_exponent a)"
    from False lo have l: "450359962737049600 \<le> a * X"
      by (simp add: scaled_def X_def)
    from big False have "nat (- binary_exponent a) \<le> 6" by simp
    then have "(2::nat) ^ nat (- binary_exponent a) \<le> 2 ^ 6"
      by (rule power_increasing) simp
    then have "X \<le> 64" by (simp add: X_def)
    then have "a * X \<le> a * 64"
      by (rule mult_le_mono2)
    moreover from assms(2) have "a < 7036874417766400" by simp
    ultimately show False using l by linarith
  qed
qed

lemma float_exact_magnitude:
  assumes "0 < a" and "a < 100 * 2 ^ 46" and "n = int a \<or> n = - int a"
  shows "nearest_cent (float_of_decimal n) = Some n"
proof -
  define e where "e = binary_exponent a"
  define k where "k = nat (- e)"
  from exponent_small [OF assms(1,2)] have e7: "e \<le> - 7" by (simp add: e_def)
  then have k7: "7 \<le> k" and ek: "e = - int k" by (simp_all add: k_def)
  have sc: "scaled a e = (a * 2 ^ k, 100)"
    using e7 by (simp add: scaled_def k_def)
  define m where "m = round_half_even (a * 2 ^ k) 100"
  have err: "\<bar>100 * int m - int a * 2 ^ k\<bar> * 2 \<le> 100"
    using round_half_even_error [of 100 "a * 2 ^ k"] by (simp add: m_def)
  have p7: "(128::int) \<le> 2 ^ k"
    using power_increasing [of 7 k "2::int"] k7 by simp
  have n0: "n \<noteq> 0" and an: "nat \<bar>n\<bar> = a" and sn: "sgn n * int a = n"
    using assms(1,3) by auto
  have fl: "float_of_decimal n =
      (if m = 2 ^ 53 then make_float n (2 ^ 52) (e + 1) else make_float n m e)"
    using n0 by (simp add: float_of_decimal_def Let_def an e_def [symmetric] sc m_def)
  show ?thesis
  proof (cases "m = 2 ^ 53")
    case True
    from k7 obtain j where kj: "k = Suc j" and j6: "6 \<le> j"
      by (cases k) simp_all
    have p6: "(64::int) \<le> 2 ^ j"
      using power_increasing [of 6 j "2::int"] j6 by simp
    define Z where "Z = int a * 2 ^ j"
    from err True have "\<bar>900719925474099200 - 2 * Z\<bar> * 2 \<le> 100"
      by (simp add: kj Z_def mult.assoc mult.left_commute)
    then have "\<bar>450359962737049600 - Z\<bar> * 2 \<le> 50"
      by (simp add: abs_le_iff)
    with p6 have "\<bar>450359962737049600 - Z\<bar> * 2 < 2 ^ j"
      by simp
    then have "\<bar>int (100 * 2 ^ 52) - int a * int (2 ^ j)\<bar> * 2 < int (2 ^ j)"
      by (simp add: Z_def)
    then have r: "round_half_even (100 * 2 ^ 52) (2 ^ j) = a"
      by (intro round_half_even_unique) simp_all
    have "e + 1 = - int j" using ek kj by simp
    moreover have "sgn (sgn n * 2 ^ 52) = sgn n" "nat \<bar>sgn n * 2 ^ 52\<bar> = 2 ^ 52"
      using n0 by (simp_all add: sgn_mult abs_mult nat_power_eq)
    ultimately show ?thesis
      using True j6 r sn by (simp add: fl make_float_def nat_power_eq)
  next
    case False
    from err p7 have "\<bar>int (100 * m) - int a * int (2 ^ k)\<bar> * 2 < int (2 ^ k)"
      by simp
    then have r: "round_half_even (100 * m) (2 ^ k) = a"
      by (intro round_half_even_unique) simp_all
    have m0: "0 < m"
    proof (rule ccontr)
      assume "\<not> 0 < m"
      with r have "a = 0" by (simp add: round_half_even_def)
      with assms(1) show False by simp
    qed
    then have "sgn (sgn n * int m) = sgn n" "nat \<bar>sgn n * int m\<bar> = m"
      using n0 by (simp_all add: sgn_mult abs_mult)
    then show ?thesis
      using False e7 r sn by (simp add: fl make_float_def ek)
  qed
qed

lemma float_exact_to_cent:
  assumes "\<bar>n\<bar> < 100 * 2 ^ 46"
  shows "nearest_cent (float_of_decimal n) = Some n"
proof (cases "n = 0")
  case True
  then show ?thesis by (simp add: float_of_decimal_def)
next
  case False
  with assms show ?thesis
    by (intro float_exact_magnitude [of "nat \<bar>n\<bar>"]) auto
qed

lemma binary_exponent_big: "binary_exponent 7036874417766401 = - 6"
  by (simp add: binary_exponent_def scaled_def bit_length.simps Let_def)

lemma float_big: "float_of_decimal 7036874417766401 = Binary64 4503599627370497 (- 6)"
  by (simp add: float_of_decimal_def make_float_def binary_exponent_big scaled_def
      round_half_even_def Let_def)

lemma nearest_cent_big: "nearest_cent (Binary64 4503599627370497 (- 6)) = Some 7036874417766402"
  by (simp add: round_half_even_def Let_def)

lemma binary_exponent_800: "binary_exponent 80000 = - 43"
  by (simp add: binary_exponent_def scaled_def bit_length.simps Let_def)

lemma float_800: "float_of_decimal 80000 = Binary64 7036874417766400 (- 43)"
  by (simp add: float_of_decimal_def make_float_def binary_exponent_800 scaled_def
      round_half_even_def Let_def)

section \<open>Balance derivation\<close>

lemma balance_of_spec_balance:
  "balance_of s a = spec_balance a (ledger_entries s)"
proof -
  have "sum_list (map amount (filter (\<lambda>e. le_account_id e = Some a \<and> dr_cr e = ''CR'') es))
        - sum_list (map amount (filter (\<lambda>e. le_account_id e = Some a \<and> dr_cr e = ''DR'') es))
        = spec_balance a es" for es
    by (induction es) auto
  then show ?thesis
    by (simp add: balance_of_def sum_amount_def)
qed

lemma sums_spec_balance:
  "sum_amount s a ''CR'' - sum_amount s a ''DR'' = spec_balance a (ledger_entries s)"
  using balance_of_spec_balance [of s a] by (simp add: balance_of_def)

lemma spec_balance_append:
  "spec_balance a (xs @ ys) = spec_balance a xs + spec_balance a ys"
  by (induction xs) simp_all

lemma find_Some_holds: "find P xs = Some x \<Longrightarrow> P x"
  by (induction xs) (auto split: if_splits)

lemma find_Some_in_set: "find P xs = Some x \<Longrightarrow> x \<in> set xs"
  by (induction xs) (auto split: if_splits)

lemma account_balance_eq:
  "account_balance s uid a =
     (s, case (get_customer s uid, get_account s a) of
           (Some cust, Some acc) \<Rightarrow>
             if acc_customer_id acc = cust_id cust
             then Inr (float_of_decimal (spec_balance a (ledger_entries s)))
             else Inl AccountNotFound
         | _ \<Rightarrow> Inl AccountNotFound)"
  by (auto simp: account_balance_def Let_def sums_spec_balance split: option.splits)

subsection \<open>A balance of 70368744177664.01\<close>

lemma same_parties_refl: "same_parties s s"
  by (simp add: same_parties_def)

lemma post_deposit_adds:
  assumes "has_role s uid ''EMPLOYEE'' \<or> has_role s uid ''ADMIN''"
    and "get_account s i = Some acc" and "acc_status acc = ACTIVE" and "0 < amt"
  shows "same_parties s (fst (ops_post_deposit s uid (Some i) (Some amt) now)) \<and>
         spec_balance i (ledger_entries (fst (ops_post_deposit s uid (Some i) (Some amt) now))) =
           spec_balance i (ledger_entries s) + amt"
proof -
  from assms(2) have "acc_id acc = i"
    by (auto simp: get_account_def dest: find_Some_holds)
  with assms show ?thesis
    by (simp add: ops_post_deposit_def Let_def add_transaction_def add_ledger_entry_def
        same_parties_def spec_balance_append)
qed

lemma same_parties_lookups:
  assumes "same_parties s s'"
  shows "has_role s' uid r = has_role s uid r" and "get_account s' i = get_account s i"
    and "get_customer s' uid = get_customer s uid" and "account_by_no s' n = account_by_no s n"
    and "get_ib s' i = get_ib s i"
    and "require_any_account s' uid b = require_any_account s uid b"
proof -
  from assms have e: "roles s' = roles s" "user_roles s' = user_roles s"
    "customers s' = customers s" "accounts s' = accounts s"
    "internet_banking s' = internet_banking s"
    by (simp_all add: same_parties_def)
  show "has_role s' uid r = has_role s uid r" unfolding has_role_def e by (rule refl)
  show "get_account s' i = get_account s i" by (simp add: get_account_def e)
  show c: "get_customer s' uid = get_customer s uid" by (simp add: get_customer_def e)
  show "account_by_no s' n = account_by_no s n" by (simp add: account_by_no_def e)
  show "get_ib s' i = get_ib s i" by (simp add: get_ib_def e)
  show "require_any_account s' uid b = require_any_account s uid b"
    unfolding require_any_account_def first_account_for_user_def c e by (rule refl)
qed

lemma deposits_add_up:
  assumes "has_role s uid ''EMPLOYEE'' \<or> has_role s uid ''ADMIN''"
    and "get_account s i = Some acc" and "acc_status acc = ACTIVE" and "0 < amt"
  shows "same_parties s (run rt s (replicate n (PostDeposit uid (Some i) (Some amt) now))) \<and>
         spec_balance i
           (ledger_entries (run rt s (replicate n (PostDeposit uid (Some i) (Some amt) now)))) =
           spec_balance i (ledger_entries s) + int n * amt"
  using assms
proof (induction n arbitrary: s)
  case 0
  then show ?case by (simp add: run_def same_parties_refl)
next
  case (Suc n)
  let ?s1 = "fst (ops_post_deposit s uid (Some i) (Some amt) now)"
  note st = post_deposit_adds [OF Suc.prems, of now]
  then have sp: "same_parties s ?s1" by simp
  note lk = same_parties_lookups [OF sp]
  have ih: "same_parties ?s1 (run rt ?s1 (replicate n (PostDeposit uid (Some i) (Some amt) now))) \<and>
         spec_balance i
           (ledger_entries (run rt ?s1 (replicate n (PostDeposit uid (Some i) (Some amt) now)))) =
           spec_balance i (ledger_entries ?s1) + int n * amt"
    using Suc.prems by (intro Suc.IH) (simp_all add: lk)
  have r: "run rt s (replicate (Suc n) (PostDeposit uid (Some i) (Some amt) now)) =
           run rt ?s1 (replicate n (PostDeposit uid (Some i) (Some amt) now))"
    by (simp add: run_def)
  from ih st show ?case
    unfolding r by (auto simp: same_parties_def algebra_simps)
qed

lemma big_db_facts:
  "same_parties sample_db big_db \<and> spec_balance 1 (ledger_entries big_db) = 7036874417766401"
proof -
  let ?mid = "run sample_rt sample_db (replicate 70 (PostDeposit 30 (Some 1) (Some 99999999999999) 400))"
  have staff: "has_role sample_db 30 ''EMPLOYEE'' \<or> has_role sample_db 30 ''ADMIN''"
    by (simp add: has_role_def sample_defs)
  have acc: "get_account sample_db 1 = Some (hd sample_accounts)"
    by (simp add: get_account_def sample_defs)
  have act: "acc_status (hd sample_accounts) = ACTIVE"
    by (simp add: sample_accounts_def)
  have b0: "spec_balance 1 (ledger_entries sample_db) = 80000"
    by (simp add: sample_defs)
  from deposits_add_up [OF staff acc act, of 99999999999999 sample_rt 70 400] b0
  have m: "same_parties sample_db ?mid" "spec_balance 1 (ledger_entries ?mid) = 7000000000079930"
    by simp_all
  have staff': "has_role ?mid 30 ''EMPLOYEE'' \<or> has_role ?mid 30 ''ADMIN''"
    unfolding same_parties_lookups [OF m(1)] by (rule staff)
  have acc': "get_account ?mid 1 = Some (hd sample_accounts)"
    unfolding same_parties_lookups [OF m(1)] by (rule acc)
  have big: "big_db = fst (ops_post_deposit ?mid 30 (Some 1) (Some 36874417686471) 400)"
    by (simp add: big_db_def big_deposits_def run_def)
  have "same_parties ?mid big_db \<and>
        spec_balance 1 (ledger_entries big_db) = spec_balance 1 (ledger_entries ?mid) + 36874417686471"
    unfolding big by (rule post_deposit_adds [OF staff' acc' act]) simp
  with m show ?thesis
    by (simp add: same_parties_def)
qed

text \<open>
  C2, as stated, fails. After seventy-one cash deposits, none above the largest amount the
  column holds, the ledger entries of account 1 sum to 70368744177664.01. The balance
  operation answers with the float 4503599627370497 / 64, which is
  70368744177664.015625: at two decimals 70368744177664.02, one cent more than the sum of
  the CREDIT entries minus the sum of the DEBIT entries.
\<close>

theorem account_balance_exact_counterexample:
  "account_balance big_db 10 1 = (big_db, Inr (Binary64 4503599627370497 (- 6))) \<and>
   spec_balance 1 (ledger_entries big_db) = 7036874417766401 \<and>
   nearest_cent (Binary64 4503599627370497 (- 6)) = Some 7036874417766402"
proof -
  from big_db_facts have sp: "same_parties sample_db big_db"
    and b: "spec_balance 1 (ledger_entries big_db) = 7036874417766401"
    by simp_all
  have c: "get_customer big_db 10 = Some \<lparr>cust_id = 1, cust_user_id = 10\<rparr>"
    unfolding same_parties_lookups [OF sp] by (simp add: get_customer_def sample_defs)
  have a: "get_account big_db 1 = Some (hd sample_accounts)"
    unfolding same_parties_lookups [OF sp] by (simp add: get_account_def sample_defs)
  have o: "acc_customer_id (hd sample_accounts) = 1"
    by (simp add: sample_accounts_def)
  have "account_balance big_db 10 1 = (big_db, Inr (Binary64 4503599627370497 (- 6)))"
    unfolding account_balance_eq c a b float_big by (simp add: o)
  with b nearest_cent_big show ?thesis by simp
qed

text \<open>
  C2, amended. For every database state and every account that the caller owns, the
  balance operation answers with the binary64 float nearest to the sum of the amounts of
  the account's CREDIT entries minus the sum of the amounts of its DEBIT entries,
  recomputed from the raw ledger entries, and it leaves the database as it was; when the
  account is missing or is not the caller's the answer is "Account not found", again
  without any write. No table of the data model holds a balance column. While the balance
  is below 2 ^ 46 = 70368744177664 in magnitude the float rounds to it at two decimals.
\<close>

theorem account_balance_derived:
  "account_balance s uid a =
     (s, case (get_customer s uid, get_account s a) of
           (Some cust, Some acc) \<Rightarrow>
             if acc_customer_id acc = cust_id cust
             then Inr (float_of_decimal (spec_balance a (ledger_entries s)))
             else Inl AccountNotFound
         | _ \<Rightarrow> Inl AccountNotFound) \<and>
   (\<bar>spec_balance a (ledger_entries s)\<bar> < 100 * 2 ^ 46 \<longrightarrow>
      nearest_cent (float_of_decimal (spec_balance a (ledger_entries s))) =
        Some (spec_balance a (ledger_entries s)))"
  using account_balance_eq [of s uid a] float_exact_to_cent
  by blast

theorem account_balance_derived_witness:
  "account_balance sample_db 10 1 = (sample_db, Inr (Binary64 7036874417766400 (- 43))) \<and>
   spec_balance 1 (ledger_entries sample_db) = 80000 \<and>
   nearest_cent (Binary64 7036874417766400 (- 43)) = Some 80000"
proof -
  have b: "spec_balance 1 (ledger_entries sample_db) = 80000"
    by (simp add: sample_defs)
  have c: "get_customer sample_db 10 = Some \<lparr>cust_id = 1, cust_user_id = 10\<rparr>"
    by (simp add: get_customer_def sample_defs)
  have a: "get_account sample_db 1 = Some (hd sample_accounts)"
    by (simp add: get_account_def sample_defs)
  have o: "acc_customer_id (hd sample_accounts) = 1"
    by (simp add: sample_accounts_def)
  from account_balance_derived [of sample_db 10 1] b c a o float_800 show ?thesis
    by simp
qed

section \<open>Transfer: what the checks establish\<close>

lemma lookup_ref_in_accounts: "lookup_ref s r = Some acc \<Longrightarrow> acc \<in> set (accounts s)"
  by (cases r) (auto simp: account_by_no_def get_account_def dest: find_Some_in_set)

lemma same_parties_lookup_ref: "same_parties s s' \<Longrightarrow> lookup_ref s' r = lookup_ref s r"
  by (cases r) (simp_all add: same_parties_lookups)

lemma ib_transfer_rejected:
  "transfer_checks rt s uid rq = Inl e \<Longrightarrow> ib_transfer rt s uid rq now = (s, Inl e)"
  by (simp add: ib_transfer_def)

lemma ib_transfer_posted:
  "transfer_checks rt s uid rq = Inr (from_acc, to_acc, amt) \<Longrightarrow>
   ib_transfer rt s uid rq now =
     (fst (transfer_post s uid from_acc to_acc amt now),
      Inr (snd (transfer_post s uid from_acc to_acc amt now)))"
  by (simp add: ib_transfer_def split: prod.splits)

lemma checks_passed:
  assumes "transfer_checks rt s uid rq = Inr (from_acc, to_acc, amt)"
  shows "lookup_ref s (tr_from rq) = Some from_acc" and "lookup_ref s (tr_to rq) = Some to_acc"
    and "tr_amount rq = Some (DecFinite amt)" and "acc_id from_acc \<noteq> acc_id to_acc"
    and "0 < amt" and "amt \<le> spec_balance (acc_id from_acc) (ledger_entries s)"
    and "first_violated rt s uid rq = None"
  using assms
  by (auto simp: transfer_checks_def Let_def sums_spec_balance first_violated_def check_order_def
      split: sum.splits option.splits if_splits decimal.splits bool.splits)

lemma checks_failed:
  assumes "transfer_checks rt s uid rq = Inl e" and "require_any_account s uid False = Inr a"
    and "tr_amount rq \<noteq> Some DecNaN"
  shows "first_violated rt s uid rq = check_of_error e \<and> check_of_error e \<noteq> None"
  using assms
  by (auto simp: transfer_checks_def Let_def sums_spec_balance first_violated_def check_order_def
      split: sum.splits option.splits if_splits decimal.splits bool.splits)

lemma owner_has_account:
  assumes "check_holds rt s uid rq Existence" and "check_holds rt s uid rq Ownership"
  shows "\<exists>a. require_any_account s uid False = Inr a"
proof -
  from assms obtain from_acc cust where f: "lookup_ref s (tr_from rq) = Some from_acc"
    and c: "get_customer s uid = Some cust" and o: "acc_customer_id from_acc = cust_id cust"
    by auto
  from f have "from_acc \<in> set (accounts s)" by (rule lookup_ref_in_accounts)
  with o have "find (\<lambda>a. acc_customer_id a = cust_id cust) (accounts s) \<noteq> None"
    by (auto simp: find_None_iff)
  with c show ?thesis
    by (auto simp: require_any_account_def first_account_for_user_def)
qed





section \<open>Transfer: precedence of the checks\<close>

text \<open>
  C3, as stated, fails. User 40 has a customer profile but no account. Asked to move 0.00
  from account 1 to account 1 with an empty PIN, the first check of the specified order
  that does not hold is distinctness (both accounts exist); the handler answers
  "No account found. Please open an account first." instead, which is none of the seven
  checks: \<open>_require_any_account\<close> runs before all of them.
\<close>

theorem transfer_check_order_counterexample:
  "first_violated sample_rt sample_db 40 rq_same = Some Distinctness \<and>
   snd (ib_transfer sample_rt sample_db 40 rq_same 400) = Inl NoAccountFound \<and>
   check_of_error NoAccountFound = None"
  by (simp add: first_violated_def check_order_def ib_transfer_def transfer_checks_def
      rq_same_def sample_defs lookup_defs)

text \<open>
  C3, amended. When the caller has at least one account (otherwise "No account found" is
  reported before any other check) and the amount is not the decimal NaN, the transfer
  succeeds exactly when none of the seven checks is violated, and otherwise the error it
  reports belongs to the first violated check in the order existence, distinctness,
  status, ownership, amount validity, PIN, funds: no later check's error is reported when
  an earlier check fails. This holds whatever characters beyond ASCII \<open>str.isdigit\<close>
  accepts and whatever \<open>bcrypt.verify\<close> answers.
\<close>

theorem transfer_reports_first_violated:
  "require_any_account s uid False = Inr a \<Longrightarrow> tr_amount rq \<noteq> Some DecNaN \<Longrightarrow>
   (first_violated rt s uid rq = None \<longleftrightarrow>
      (\<exists>ok. snd (ib_transfer rt s uid rq now) = Inr ok)) \<and>
   (\<forall>c. first_violated rt s uid rq = Some c \<longleftrightarrow>
      (\<exists>e. snd (ib_transfer rt s uid rq now) = Inl e \<and> check_of_error e = Some c))"
proof (cases "transfer_checks rt s uid rq")
  case (Inl e)
  assume "require_any_account s uid False = Inr a" "tr_amount rq \<noteq> Some DecNaN"
  from checks_failed [OF Inl this] ib_transfer_rejected [OF Inl, of now] show ?thesis
    by auto
next
  case (Inr x)
  obtain f t m where x: "x = (f, t, m)" by (cases x)
  from checks_passed(7) [of rt s uid rq f t m] ib_transfer_posted [of rt s uid rq f t m now] Inr x
  show ?thesis by simp
qed

theorem transfer_reports_first_violated_witness:
  "require_any_account sample_db 10 False = Inr (hd sample_accounts) \<and>
   tr_amount rq_same \<noteq> Some DecNaN \<and>
   first_violated sample_rt sample_db 10 rq_same = Some Distinctness \<and>
   snd (ib_transfer sample_rt sample_db 10 rq_same 400) = Inl SameAccount"
proof -
  have h: "require_any_account sample_db 10 False = Inr (hd sample_accounts)"
    by (simp add: sample_defs lookup_defs)
  have n: "tr_amount rq_same \<noteq> Some DecNaN"
    by (simp add: rq_same_def)
  have r: "snd (ib_transfer sample_rt sample_db 10 rq_same 400) = Inl SameAccount"
    by (simp add: ib_transfer_def transfer_checks_def rq_same_def sample_defs lookup_defs)
  from transfer_reports_first_violated [OF h n, of sample_rt 400] r
  have "first_violated sample_rt sample_db 10 rq_same = Some Distinctness"
    by simp
  with h n r show ?thesis by simp
qed

text \<open>
  The amount NaN, which \<^verbatim>\<open>Decimal(str(...))\<close> accepts: once the accounts, their status
  and the ownership are in order, the request ends with status 500 and writes nothing.
\<close>

lemma transfer_nan_amount:
  "ib_transfer sample_rt sample_db 10 (rq_over\<lparr>tr_amount := Some DecNaN\<rparr>) 400 =
     (sample_db, Inl InternalServerError)"
  by (simp add: ib_transfer_def transfer_checks_def rq_over_def sample_defs lookup_defs)

section \<open>Transfer: a rejected request writes nothing\<close>




section \<open>Transfers handled at the same time\<close>

lemma transfer_post_ledger:
  "ledger_entries (fst (transfer_post s uid from_acc to_acc amt now)) =
     ledger_entries s @
       [\<lparr>le_id = next_le_id s, le_transaction_id = next_tx_id s,
         le_account_id = Some (acc_id from_acc), gl_code = None, dr_cr = ''DR'', amount = amt,
         posted_at = Some now\<rparr>,
        \<lparr>le_id = Suc (next_le_id s), le_transaction_id = next_tx_id s,
         le_account_id = Some (acc_id to_acc), gl_code = None, dr_cr = ''CR'', amount = amt,
         posted_at = Some now\<rparr>]"
  by (simp add: transfer_post_def add_transaction_def add_ledger_entry_def Let_def)

text \<open>
  Two requests on the same source account that each pass the checks on the database as it
  is: in the racing schedule both succeed and the source account is debited twice. When
  the two amounts together exceed the balance, the balance ends below zero.
\<close>

lemma racing_both_post:
  assumes c1: "transfer_checks rt s uid1 rq1 = Inr (f1, t1, a1)"
    and c2: "transfer_checks rt s uid2 rq2 = Inr (f2, t2, a2)"
    and same: "acc_id f2 = acc_id f1"
  shows "succeeded (fst (snd (racing_transfers rt s uid1 rq1 now1 uid2 rq2 now2))) \<and>
         succeeded (snd (snd (racing_transfers rt s uid1 rq1 now1 uid2 rq2 now2))) \<and>
         spec_balance (acc_id f1)
           (ledger_entries (fst (racing_transfers rt s uid1 rq1 now1 uid2 rq2 now2))) =
           spec_balance (acc_id f1) (ledger_entries s) - a1 - a2"
proof -
  let ?s1 = "fst (transfer_post s uid1 f1 t1 a1 now1)"
  have r: "racing_transfers rt s uid1 rq1 now1 uid2 rq2 now2 =
      (fst (transfer_post ?s1 uid2 f2 t2 a2 now2),
       Inr (snd (transfer_post s uid1 f1 t1 a1 now1)),
       Inr (snd (transfer_post ?s1 uid2 f2 t2 a2 now2)))"
    by (simp add: racing_transfers_def c1 c2 Let_def split: prod.splits)
  from checks_passed(4) [OF c1] checks_passed(4) [OF c2] same
  have d: "acc_id f1 \<noteq> acc_id t1" "acc_id f1 \<noteq> acc_id t2" by simp_all
  show ?thesis
    unfolding r using d same
    by (simp add: succeeded_def transfer_post_ledger spec_balance_append)
qed

lemma none_violated_passes:
  assumes "first_violated rt s uid rq = None"
  shows "\<exists>f t a. transfer_checks rt s uid rq = Inr (f, t, a)"
proof -
  from assms have h: "check_holds rt s uid rq Existence" "check_holds rt s uid rq Distinctness"
    "check_holds rt s uid rq Status" "check_holds rt s uid rq Ownership"
    "check_holds rt s uid rq AmountValidity" "check_holds rt s uid rq PinCredential"
    "check_holds rt s uid rq Funds"
    by (simp_all add: first_violated_def check_order_def split: if_splits)
  from owner_has_account [OF h(1) h(4)] obtain a where a: "require_any_account s uid False = Inr a"
    by blast
  from h show ?thesis
    by (auto simp: transfer_checks_def a Let_def sums_spec_balance
        split: option.splits decimal.splits)
qed

lemma transfer_post_parties: "same_parties s (fst (transfer_post s uid f t a now))"
  by (simp add: transfer_post_def add_transaction_def add_ledger_entry_def same_parties_def Let_def)

lemma checks_on_lower_balance:
  assumes "same_parties s s'" and "transfer_checks rt s uid rq = Inr (f, t, a)"
    and "spec_balance (acc_id f) (ledger_entries s') < a"
  shows "transfer_checks rt s' uid rq =
           Inl (InsufficientFunds (float_of_decimal (spec_balance (acc_id f) (ledger_entries s'))))"
proof -
  note lk = same_parties_lookups(3,5,6) [OF assms(1)] same_parties_lookup_ref [OF assms(1)]
  from assms(2,3) show ?thesis
    unfolding transfer_checks_def lk
    by (auto simp: Let_def sums_spec_balance
        split: sum.splits option.splits if_splits decimal.splits bool.splits)
qed

text \<open>
  C5, as stated, fails. Account 1 of the sample database holds 800.00. Two requests to
  move 800.00 from account 1 to account 2, each valid on its own, are handled at the same
  time: both run their checks before either has committed. Both succeed, and the balance
  of account 1 ends at -800.00.
\<close>

theorem racing_transfers_overdraw:
  "spec_balance 1 (ledger_entries sample_db) = 80000 \<and>
   first_violated sample_rt sample_db 10 rq_all = None \<and>
   succeeded (fst (snd (racing_transfers sample_rt sample_db 10 rq_all 500 10 rq_all 500))) \<and>
   succeeded (snd (snd (racing_transfers sample_rt sample_db 10 rq_all 500 10 rq_all 500))) \<and>
   spec_balance 1
     (ledger_entries (fst (racing_transfers sample_rt sample_db 10 rq_all 500 10 rq_all 500))) =
     - 80000"
proof -
  have c: "transfer_checks sample_rt sample_db 10 rq_all =
      Inr (hd sample_accounts, sample_accounts ! 1, 80000)"
    by (simp add: transfer_checks_def rq_all_def lookup_defs sample_defs pin_well_formed_def
        isdigit_def sample_rt_def sum_amount_def)
  have b: "spec_balance (acc_id (hd sample_accounts)) (ledger_entries sample_db) = 80000"
    by (simp add: sample_defs)
  have i: "acc_id (hd sample_accounts) = 1"
    by (simp add: sample_accounts_def)
  from racing_both_post [OF c c refl, of 500 500] checks_passed(7) [OF c] b show ?thesis
    unfolding i by simp
qed

text \<open>
  C5, amended. Take two transfer requests of the same amount from the same source
  account, each violating none of the seven checks, on a database in which the balance of
  the source is exactly that amount. Handled one after the other, the first succeeds and
  leaves the source at 0.00, and the second is rejected for insufficient funds and writes
  nothing: exactly one success and one rejection. The handler takes no lock and does not
  look at the balance again when it commits: when both requests run their checks before
  either has posted, both succeed and the source ends at minus the amount.
\<close>

theorem transfers_in_turn:
  assumes "first_violated rt s uid1 rq1 = None" and "first_violated rt s uid2 rq2 = None"
    and "lookup_ref s (tr_from rq1) = Some src" and "lookup_ref s (tr_from rq2) = Some src"
    and "tr_amount rq1 = Some (DecFinite a)" and "tr_amount rq2 = Some (DecFinite a)"
    and "spec_balance (acc_id src) (ledger_entries s) = a"
  shows "succeeded (snd (ib_transfer rt s uid1 rq1 now1)) \<and>
         spec_balance (acc_id src) (ledger_entries (fst (ib_transfer rt s uid1 rq1 now1))) = 0 \<and>
         ib_transfer rt (fst (ib_transfer rt s uid1 rq1 now1)) uid2 rq2 now2 =
           (fst (ib_transfer rt s uid1 rq1 now1), Inl (InsufficientFunds (Binary64 0 0))) \<and>
         succeeded (fst (snd (racing_transfers rt s uid1 rq1 now1 uid2 rq2 now2))) \<and>
         succeeded (snd (snd (racing_transfers rt s uid1 rq1 now1 uid2 rq2 now2))) \<and>
         spec_balance (acc_id src)
           (ledger_entries (fst (racing_transfers rt s uid1 rq1 now1 uid2 rq2 now2))) = - a"
proof -
  from none_violated_passes [OF assms(1)] obtain f1 t1 a1 where
    c1: "transfer_checks rt s uid1 rq1 = Inr (f1, t1, a1)" by blast
  from none_violated_passes [OF assms(2)] obtain f2 t2 a2 where
    c2: "transfer_checks rt s uid2 rq2 = Inr (f2, t2, a2)" by blast
  from checks_passed(1,3) [OF c1] assms(3,5) have e1: "f1 = src" "a1 = a" by simp_all
  from checks_passed(1,3) [OF c2] assms(4,6) have e2: "f2 = src" "a2 = a" by simp_all
  note c1 = c1 [unfolded e1] and c2 = c2 [unfolded e2]
  let ?s1 = "fst (transfer_post s uid1 src t1 a now1)"
  have first: "ib_transfer rt s uid1 rq1 now1 = (?s1, Inr (snd (transfer_post s uid1 src t1 a now1)))"
    by (rule ib_transfer_posted [OF c1])
  from checks_passed(4,5) [OF c1] have d: "acc_id src \<noteq> acc_id t1" "0 < a" by simp_all
  have b1: "spec_balance (acc_id src) (ledger_entries ?s1) = 0"
    using d assms(7) by (simp add: transfer_post_ledger spec_balance_append)
  with d have low: "spec_balance (acc_id src) (ledger_entries ?s1) < a" by simp
  from checks_on_lower_balance [OF transfer_post_parties c2 low]
  have second: "ib_transfer rt ?s1 uid2 rq2 now2 = (?s1, Inl (InsufficientFunds (Binary64 0 0)))"
    by (simp add: ib_transfer_rejected b1 float_of_decimal_def)
  from racing_both_post [OF c1 c2 refl, of now1 now2] assms(7) first second b1 show ?thesis
    by (simp add: succeeded_def)
qed

theorem transfers_in_turn_witness:
  "first_violated sample_rt sample_db 10 rq_all = None \<and>
   lookup_ref sample_db (tr_from rq_all) = Some (hd sample_accounts) \<and>
   tr_amount rq_all = Some (DecFinite 80000) \<and>
   spec_balance 1 (ledger_entries sample_db) = 80000 \<and>
   succeeded (snd (ib_transfer sample_rt sample_db 10 rq_all 500)) \<and>
   snd (ib_transfer sample_rt (fst (ib_transfer sample_rt sample_db 10 rq_all 500)) 10 rq_all 510) =
     Inl (InsufficientFunds (Binary64 0 0))"
proof -
  have v: "first_violated sample_rt sample_db 10 rq_all = None"
    by (simp add: first_violated_def check_order_def rq_all_def lookup_defs sample_defs
        pin_well_formed_def isdigit_def sample_rt_def)
  have l: "lookup_ref sample_db (tr_from rq_all) = Some (hd sample_accounts)"
    by (simp add: rq_all_def sample_defs lookup_defs)
  have m: "tr_amount rq_all = Some (DecFinite 80000)"
    by (simp add: rq_all_def)
  have b: "spec_balance (acc_id (hd sample_accounts)) (ledger_entries sample_db) = 80000"
    by (simp add: sample_defs)
  have i: "acc_id (hd sample_accounts) = 1"
    by (simp add: sample_accounts_def)
  from transfers_in_turn [OF v v l l m m b, of 500 510] v l m b show ?thesis
    unfolding i by simp
qed

section \<open>Decimal rendering of serials\<close>






section \<open>Lookups in updated tables\<close>


lemma find_map_update:
  "(\<And>x. P (f x) = P x) \<Longrightarrow>
   find P (map (\<lambda>r. if Q r then f r else r) xs) =
     map_option (\<lambda>r. if Q r then f r else r) (find P xs)"
  by (induction xs) auto

section \<open>Account numbers\<close>


lemma ensure_seq_frame:
  "ensure_seq s b = (s1, q) \<Longrightarrow>
   branches s1 = branches s \<and> account_requests s1 = account_requests s \<and>
   accounts s1 = accounts s \<and> transactions s1 = transactions s \<and>
   ledger_entries s1 = ledger_entries s \<and> next_acc_id s1 = next_acc_id s \<and>
   next_tx_id s1 = next_tx_id s \<and> next_le_id s1 = next_le_id s \<and>
   roles s1 = roles s \<and> user_roles s1 = user_roles s"
  by (auto simp: ensure_seq_def Let_def split: option.splits)






section \<open>Approval and the ledger\<close>

text \<open>
  C10. A successful approval found the request PENDING, appends exactly one account to
  the accounts table, with status ACTIVE from the start, and leaves the request APPROVED.
  With \<open>initial_deposit\<close> omitted or equal to 0 the transactions table and the ledger are
  exactly as before. Only with a strictly positive initial deposit is one DEPOSIT
  transaction (status POSTED) appended together with its two entries: a DEBIT of the
  cash-vault general-ledger code and a CREDIT of the new account, both for the deposit
  amount. The response carries the deposit as a float.
\<close>

theorem approval_frame:
  assumes "ops_approve_request s uid rid init now = (s', Inr ok)"
  shows "\<exists>ar acc.
      get_request s rid = Some ar \<and> ar_status ar = PENDING \<and>
      accounts s' = accounts s @ [acc] \<and> acc_status acc = ACTIVE \<and>
      acc_id acc = ap_account_id ok \<and> account_no acc = ap_account_no ok \<and>
      acc_customer_id acc = ar_customer_id ar \<and>
      get_request s' rid = Some (ar\<lparr>ar_status := APPROVED\<rparr>) \<and>
      ap_request_status ok = APPROVED \<and>
      ap_initial_deposit ok = float_of_decimal (requested_deposit init) \<and>
      (if 0 < requested_deposit init
       then transactions s' = transactions s @
              [\<lparr>tx_id = next_tx_id s, tx_type = DEPOSIT, tx_status = POSTED,
                tx_created_by = Some uid, tx_created_at = Some now\<rparr>] \<and>
            ledger_entries s' = ledger_entries s @
              [\<lparr>le_id = next_le_id s, le_transaction_id = next_tx_id s, le_account_id = None,
                gl_code = Some GL_CASH_VAULT, dr_cr = ''DR'', amount = requested_deposit init,
                posted_at = Some now\<rparr>,
               \<lparr>le_id = Suc (next_le_id s), le_transaction_id = next_tx_id s,
                le_account_id = Some (acc_id acc), gl_code = None, dr_cr = ''CR'',
                amount = requested_deposit init, posted_at = Some now\<rparr>]
       else transactions s' = transactions s \<and> ledger_entries s' = ledger_entries s)"
proof -
  from assms obtain init_amt ar br where
    p: "parse_initial_deposit init = Inr init_amt" and
    a: "get_request s rid = Some ar" and st: "ar_status ar = PENDING" and
    b: "get_branch s (ar_branch_id ar) = Some br"
    by (auto simp: ops_approve_request_def split: if_splits sum.splits option.splits)
  obtain s1 q where e: "ensure_seq s (br_id br) = (s1, q)"
    by (cases "ensure_seq s (br_id br)")
  note f = ensure_seq_frame [OF e]
  from a have rid: "ar_id ar = rid"
    by (auto simp: get_request_def dest: find_Some_holds)
  have upd: "find (\<lambda>r. ar_id r = rid)
               (map (\<lambda>r. if ar_id r = rid then r\<lparr>ar_status := APPROVED\<rparr> else r)
                  (account_requests s)) = Some (ar\<lparr>ar_status := APPROVED\<rparr>)"
    using a rid by (simp add: find_map_update get_request_def)
  from p have amt: "init_amt = requested_deposit init"
    by (auto simp: parse_initial_deposit_def requested_deposit_def split: init_raw.splits if_splits)
  from assms p a st b e f upd rid amt show ?thesis
    by (auto simp: ops_approve_request_def Let_def set_next_serial_def add_account_def
        add_transaction_def add_ledger_entry_def set_request_status_def get_request_def
        split: if_splits prod.splits)
qed

theorem approval_frame_witness:
  "snd (ops_approve_request sample_db 30 4 InitDefault 400) =
     Inr \<lparr>ap_account_id = 3, ap_account_no = ''B0021000000001'',
          ap_request_status = APPROVED, ap_initial_deposit = Binary64 0 0\<rparr> \<and>
   transactions (fst (ops_approve_request sample_db 30 4 InitDefault 400)) =
     transactions sample_db \<and>
   ledger_entries (fst (ops_approve_request sample_db 30 4 InitDefault 400)) =
     ledger_entries sample_db \<and>
   length (ledger_entries (fst (ops_approve_request sample_db 30 5 (InitAmount 10000) 400))) =
     length (ledger_entries sample_db) + 2"
proof -
  have r: "ops_approve_request sample_db 30 4 InitDefault 400 =
      (fst (ops_approve_request sample_db 30 4 InitDefault 400),
       Inr \<lparr>ap_account_id = 3, ap_account_no = ''B0021000000001'',
            ap_request_status = APPROVED, ap_initial_deposit = Binary64 0 0\<rparr>)"
    by (simp add: prod_eq_iff approve_defs sample_defs Let_def string_of_nat.simps
        float_of_decimal_def)
  have p: "ops_approve_request sample_db 30 5 (InitAmount 10000) 400 =
      (fst (ops_approve_request sample_db 30 5 (InitAmount 10000) 400),
       Inr \<lparr>ap_account_id = 3, ap_account_no = ''B0011000000003'',
            ap_request_status = APPROVED, ap_initial_deposit = float_of_decimal 10000\<rparr>)"
    by (simp add: prod_eq_iff approve_defs sample_defs Let_def string_of_nat.simps)
  have d: "requested_deposit InitDefault = 0" "requested_deposit (InitAmount 10000) = 10000"
    by (simp_all add: requested_deposit_def)
  from approval_frame [OF r] d
  have t: "transactions (fst (ops_approve_request sample_db 30 4 InitDefault 400)) =
             transactions sample_db \<and>
           ledger_entries (fst (ops_approve_request sample_db 30 4 InitDefault 400)) =
             ledger_entries sample_db"
    by auto
  from approval_frame [OF p] d
  have l: "length (ledger_entries (fst (ops_approve_request sample_db 30 5 (InitAmount 10000) 400))) =
           length (ledger_entries sample_db) + 2"
    by auto
  from r have "snd (ops_approve_request sample_db 30 4 InitDefault 400) =
     Inr \<lparr>ap_account_id = 3, ap_account_no = ''B0021000000001'',
          ap_request_status = APPROVED, ap_initial_deposit = Binary64 0 0\<rparr>"
    by (metis snd_conv)
  with t l show ?thesis
    by simp
qed

section \<open>Double entry\<close>

lemma approve_effect:
  "ledger_same s (fst (ops_approve_request s uid rid init now)) \<or>
   posted_pair s (fst (ops_approve_request s uid rid init now))"
proof -
  have e: "ensure_seq s b = (s1, q) \<Longrightarrow> ledger_same s s1" for b s1 q
    by (auto simp: ensure_seq_def ledger_same_def Let_def split: option.splits)
  show ?thesis
    by (auto simp: ops_approve_request_def Let_def ledger_same_def posted_pair_def
        set_next_serial_def add_account_def add_transaction_def add_ledger_entry_def
        set_request_status_def dest!: e split: if_splits prod.splits sum.splits option.splits)
qed

lemma post_deposit_effect:
  "ledger_same s (fst (ops_post_deposit s uid a amt now)) \<or>
   posted_pair s (fst (ops_post_deposit s uid a amt now))"
  by (auto simp: ops_post_deposit_def Let_def ledger_same_def posted_pair_def
      add_transaction_def add_ledger_entry_def
      split: if_splits prod.splits sum.splits option.splits)

lemma accept_effect:
  "ledger_same s (fst (ops_accept_cash_deposit s uid a d n amt now)) \<or>
   posted_pair s (fst (ops_accept_cash_deposit s uid a d n amt now))"
  by (auto simp: ops_accept_cash_deposit_def Let_def ledger_same_def posted_pair_def
      add_transaction_def add_ledger_entry_def
      split: if_splits prod.splits sum.splits option.splits)

lemma transfer_effect:
  "ledger_same s (fst (ib_transfer rt s uid rq now)) \<or>
   posted_pair s (fst (ib_transfer rt s uid rq now))"
  by (auto simp: ib_transfer_def transfer_post_def Let_def ledger_same_def posted_pair_def
      add_transaction_def add_ledger_entry_def split: prod.splits sum.splits)

lemma disburse_effect:
  "ledger_same s (fst (ops_loan_disburse s uid l a amt r t now)) \<or>
   posted_pair s (fst (ops_loan_disburse s uid l a amt r t now))"
  by (auto simp: ops_loan_disburse_def Let_def ledger_same_def posted_pair_def
      add_transaction_def add_ledger_entry_def set_loan_detail_def add_loan_history_def
      get_loan_detail_def
      split: if_splits prod.splits sum.splits option.splits field.splits)

lemma handle_effect: "ledger_same s (handle rt s c) \<or> posted_pair s (handle rt s c)"
  by (cases c)
    (simp_all add: approve_effect post_deposit_effect accept_effect transfer_effect
      disburse_effect)

lemma same_preserves:
  "ledger_same s s' \<Longrightarrow> double_entry s \<and> entries_issued s \<Longrightarrow>
   double_entry s' \<and> entries_issued s'"
  by (simp add: ledger_same_def double_entry_def entries_issued_def tx_sum_def)

lemma tx_sum_fresh:
  assumes "entries_issued s"
  shows "tx_sum s (next_tx_id s) side = 0"
proof -
  have f: "list_all (\<lambda>e. le_transaction_id e < n) es \<Longrightarrow>
        filter (\<lambda>e. le_transaction_id e = n \<and> dr_cr e = side) es = []"
    for n and es :: "LedgerEntry list"
    by (induction es) auto
  from assms have "list_all (\<lambda>e. le_transaction_id e < next_tx_id s) (ledger_entries s)"
    by (simp add: entries_issued_def)
  from f [OF this] show ?thesis
    by (simp add: tx_sum_def)
qed

lemma pair_preserves:
  assumes "posted_pair s s'" and "double_entry s \<and> entries_issued s"
  shows "double_entry s' \<and> entries_issued s'"
proof -
  from assms(1) obtain t e1 e2 where
    tr: "transactions s' = transactions s @ [t]" and tid: "tx_id t = next_tx_id s" and
    nx: "next_tx_id s' = Suc (next_tx_id s)" and
    le: "ledger_entries s' = ledger_entries s @ [e1, e2]" and
    t1: "le_transaction_id e1 = next_tx_id s" and t2: "le_transaction_id e2 = next_tx_id s" and
    d1: "dr_cr e1 = ''DR''" and d2: "dr_cr e2 = ''CR''" and am: "amount e1 = amount e2"
    by (auto simp: posted_pair_def)
  have sums: "tx_sum s' k side = tx_sum s k side +
      (if k = next_tx_id s
       then (if side = ''DR'' then amount e1 else 0) + (if side = ''CR'' then amount e2 else 0)
       else 0)" for k side
    using le t1 t2 d1 d2 by (auto simp: tx_sum_def)
  have old: "list_all (\<lambda>t. tx_sum s' (tx_id t) ''DR'' = tx_sum s' (tx_id t) ''CR'') (transactions s)"
    using assms(2) am by (auto simp: double_entry_def sums list_all_iff)
  have new: "tx_sum s' (tx_id t) ''DR'' = tx_sum s' (tx_id t) ''CR''"
    using assms(2) am tid by (simp add: sums tx_sum_fresh)
  have iss: "entries_issued s'"
    using assms(2) le t1 t2 nx by (auto simp: entries_issued_def list_all_iff)
  from old new iss tr show ?thesis
    by (simp add: double_entry_def)
qed

lemma handle_preserves:
  "double_entry s \<and> entries_issued s \<Longrightarrow>
   double_entry (handle rt s c) \<and> entries_issued (handle rt s c)"
  using handle_effect [of s rt c] same_preserves pair_preserves by blast

lemma run_preserves:
  "double_entry s \<and> entries_issued s \<Longrightarrow>
   double_entry (run rt s cs) \<and> entries_issued (run rt s cs)"
  unfolding run_def
  by (induction cs arbitrary: s) (simp_all add: handle_preserves)


text \<open>
  C1. Start from a database in which every transaction is balanced and every ledger entry
  refers to a transaction id already issued (a database with an empty ledger is one), and
  handle any list of requests to the five posting handlers: approval with its initial
  deposit, cash deposit by account id, teller deposit by account number, transfer, loan
  disbursal. Each request leaves the ledger alone or appends one POSTED transaction with
  one DEBIT and one CREDIT entry of the same amount, and in the database reached every
  transaction has the sum of its DEBIT amounts equal to the sum of its CREDIT amounts.
  The list is arbitrary, so this holds after every individual post.
\<close>

theorem posting_keeps_double_entry:
  assumes "double_entry s" and "entries_issued s"
  shows "double_entry (run rt s calls) \<and> entries_issued (run rt s calls) \<and>
         (ledger_same (run rt s calls) (handle rt (run rt s calls) c) \<or>
          posted_pair (run rt s calls) (handle rt (run rt s calls) c))"
  using run_preserves [of s rt calls] assms handle_effect by simp

theorem posting_keeps_double_entry_witness:
  "double_entry sample_db \<and> entries_issued sample_db \<and>
   double_entry (run sample_rt sample_db sample_calls) \<and>
   map tx_id (transactions (run sample_rt sample_db sample_calls)) = [1, 2, 3, 4, 5, 6, 7, 8] \<and>
   map (\<lambda>t. tx_sum (run sample_rt sample_db sample_calls) t ''DR'') [4, 5, 6, 7, 8] =
     [10000, 100000, 2500, 30000, 2500000]"
proof -
  have d: "double_entry sample_db"
    by (simp add: double_entry_def tx_sum_def sample_defs)
  have i: "entries_issued sample_db"
    by (simp add: entries_issued_def sample_defs)
  have t: "map tx_id (transactions (run sample_rt sample_db sample_calls)) = [1, 2, 3, 4, 5, 6, 7, 8]"
    by (simp add: run_def sample_calls_def sample_transfer_def rq_over_def approve_defs
        handler_defs lookup_defs sample_defs Let_def string_of_nat.simps)
  have m: "map (\<lambda>t. tx_sum (run sample_rt sample_db sample_calls) t ''DR'') [4, 5, 6, 7, 8] =
     [10000, 100000, 2500, 30000, 2500000]"
    by (simp add: tx_sum_def run_def sample_calls_def sample_transfer_def rq_over_def
        approve_defs handler_defs lookup_defs sample_defs Let_def string_of_nat.simps)
  from posting_keeps_double_entry [OF d i, of "sample_rt" sample_calls] d i t m
  show ?thesis by simp
qed


section \<open>History pages\<close>

lemma row_key_precedes: "row_key y \<le> row_key x \<longleftrightarrow> precedes (fst x) (fst y)"
  by (auto simp: row_key_def precedes_def)

lemma sorted_desc:
  "sorted_wrt (\<lambda>x y. row_key y \<le> row_key x) (rev (sort_key row_key xs))"
proof -
  have "sorted (map row_key (sort_key row_key xs))"
    by (rule sorted_sort_key)
  then have "sorted_wrt (\<lambda>x y. row_key x \<le> row_key y) (sort_key row_key xs)"
    by (simp add: sorted_wrt_map)
  then show ?thesis
    by (simp add: sorted_wrt_rev)
qed

lemma join_one:
  "list_all (\<lambda>e. length (f e) = Suc 0) es \<Longrightarrow>
   map fst (concat (map (\<lambda>le. map (Pair le) (f le)) (filter P es))) = filter P es"
proof (induction es)
  case Nil
  then show ?case by simp
next
  case (Cons e es)
  then obtain t where "f e = [t]"
    by (cases "f e") auto
  with Cons show ?case by simp
qed

lemma page_limit_bounds: "1 \<le> page_limit l \<and> page_limit l \<le> 100"
  by (simp add: page_limit_def Let_def)

lemma int_min_nat: "1 \<le> n \<Longrightarrow> k = min (nat n) m \<Longrightarrow> int k = min n (int m)"
  by (auto simp: min_def)

lemma filter_before_absent: "filter (before_ok BeforeAbsent) xs = xs"
  by (induction xs) auto

lemma history_rows_props:
  fixes s a before n
  defines "cands \<equiv> filter (before_ok before) (account_rows s a)"
  defines "rows \<equiv> history_rows s a before n"
  defines "rest \<equiv> drop (nat n) (rev (sort_key row_key cands))"
  shows "sorted_wrt (\<lambda>x y. precedes (fst x) (fst y)) rows"
    and "mset (rows @ rest) = mset cands"
    and "\<forall>x\<in>set rows. \<forall>y\<in>set rest. precedes (fst x) (fst y)"
    and "length rows = min (nat n) (length cands)"
    and "\<forall>r\<in>set rows. before_ok before r"
proof -
  let ?srt = "rev (sort_key row_key cands)"
  have rows: "rows = take (nat n) ?srt"
    by (simp add: rows_def history_rows_def cands_def)
  have srt: "sorted_wrt (\<lambda>x y. precedes (fst x) (fst y)) ?srt"
    using sorted_desc [of cands] by (simp add: row_key_precedes)
  then show "sorted_wrt (\<lambda>x y. precedes (fst x) (fst y)) rows"
    unfolding rows by (rule sorted_wrt_take)
  have split: "rows @ rest = ?srt"
    by (simp add: rows rest_def)
  then show "mset (rows @ rest) = mset cands"
    by simp
  from srt split show "\<forall>x\<in>set rows. \<forall>y\<in>set rest. precedes (fst x) (fst y)"
    by (metis sorted_wrt_append)
  show "length rows = min (nat n) (length cands)"
    by (simp add: rows min.commute)
  have "set rows \<subseteq> set ?srt"
    unfolding rows by (rule set_take_subset)
  then show "\<forall>r\<in>set rows. before_ok before r"
    by (auto simp: cands_def)
qed

lemma before_at_filter:
  "filter (before_ok (BeforeAt b)) xs =
     filter (\<lambda>r. \<exists>t. posted_at (fst r) = Some t \<and> t < b) xs"
  by (rule filter_cong) (auto split: option.splits)

lemma page_limit_clamp:
  "page_limit (LimitInt n) = (if n < 1 then 1 else if 100 < n then 100 else n)"
  "page_limit LimitAbsent = 20" "page_limit LimitUnreadable = 20"
  by (simp_all add: page_limit_def)

lemma format_row_entry:
  "hi_dr_cr (format_row s acc r) = dr_cr (fst r)"
  "hi_amount (format_row s acc r) = float_of_decimal (amount (fst r))"
  "hi_type (format_row s acc r) = tx_type (snd r)"
  by (simp_all add: format_row_def Let_def split: prod.splits)

text \<open>
  C7. A history page is built from rows of the account: the returned items are the
  formatted rows, in order, each with the direction and the amount of its entry. The rows
  are in descending order of posting time, rows with equal posting time in descending
  order of entry id. Together with the rows left out they are exactly the candidates:
  with a \<open>before\<close> cursor \<open>b\<close> the rows of the account whose entry has a posting time
  strictly earlier than \<open>b\<close>, without a cursor all rows of the account. No row left out
  precedes a returned one, so the page holds the most recent candidates. The page has
  \<open>limit\<close> rows, or all candidates when they are fewer, where \<open>limit\<close> is the requested
  number \<open>n\<close> clamped to the range from 1 to 100 (1 below it, 100 above it, \<open>n\<close> itself
  inside) and 20 when none is given or the one given is not a number. When every ledger
  entry has exactly one transaction, the account's rows are exactly the ledger entries of
  the account.
\<close>

theorem history_page_order:
  assumes "account_transactions s uid a before limit = (s', Inr page)"
  shows "\<exists>acc rows rest.
      s' = s \<and> get_account s a = Some acc \<and>
      hp_items page = map (format_row s acc) rows \<and>
      map hi_dr_cr (hp_items page) = map (\<lambda>r. dr_cr (fst r)) rows \<and>
      map hi_amount (hp_items page) = map (\<lambda>r. float_of_decimal (amount (fst r))) rows \<and>
      sorted_wrt (\<lambda>x y. precedes (fst x) (fst y)) rows \<and>
      (\<forall>b. before = BeforeAt b \<longrightarrow>
         mset (rows @ rest) =
           mset (filter (\<lambda>r. \<exists>t. posted_at (fst r) = Some t \<and> t < b) (account_rows s a))) \<and>
      (before = BeforeAbsent \<longrightarrow> mset (rows @ rest) = mset (account_rows s a)) \<and>
      (before = BeforeAbsent \<or> (\<exists>b. before = BeforeAt b)) \<and>
      (\<forall>x\<in>set rows. \<forall>y\<in>set rest. precedes (fst x) (fst y)) \<and>
      int (length rows) = min (page_limit limit) (int (length (rows @ rest))) \<and>
      (\<forall>n. limit = LimitInt n \<longrightarrow>
         page_limit limit = (if n < 1 then 1 else if 100 < n then 100 else n)) \<and>
      (limit = LimitAbsent \<or> limit = LimitUnreadable \<longrightarrow> page_limit limit = 20) \<and>
      (tx_integrity s \<longrightarrow>
         map fst (account_rows s a) =
           filter (\<lambda>e. le_account_id e = Some a) (ledger_entries s))"
proof -
  from assms obtain acc where
    acc: "get_account s a = Some acc" and s': "s' = s" and valid: "before \<noteq> BeforeInvalid" and
    items: "hp_items page = map (format_row s acc) (history_rows s a before (page_limit limit))"
    by (auto simp: account_transactions_def Let_def simp del: map_eq_conv
        split: option.splits if_splits)
  let ?rows = "history_rows s a before (page_limit limit)"
  let ?rest = "drop (nat (page_limit limit))
                 (rev (sort_key row_key (filter (before_ok before) (account_rows s a))))"
  note p = history_rows_props [of s a before "page_limit limit"]
  note b = page_limit_bounds [of limit]
  have L: "length (?rows @ ?rest) = length (filter (before_ok before) (account_rows s a))"
    using p(2) by (rule mset_eq_length)
  have len: "int (length ?rows) = min (page_limit limit) (int (length (?rows @ ?rest)))"
    unfolding L using p(4) b by (intro int_min_nat) simp_all
  have bef: "\<forall>b. before = BeforeAt b \<longrightarrow>
         mset (?rows @ ?rest) =
           mset (filter (\<lambda>r. \<exists>t. posted_at (fst r) = Some t \<and> t < b) (account_rows s a))"
  proof (intro allI impI)
    fix b
    assume a: "before = BeforeAt b"
    from p(2) show "mset (?rows @ ?rest) =
           mset (filter (\<lambda>r. \<exists>t. posted_at (fst r) = Some t \<and> t < b) (account_rows s a))"
      unfolding a before_at_filter .
  qed
  have all: "before = BeforeAbsent \<longrightarrow> mset (?rows @ ?rest) = mset (account_rows s a)"
  proof
    assume a: "before = BeforeAbsent"
    have f: "filter (before_ok before) (account_rows s a) = account_rows s a"
      unfolding a by (rule filter_before_absent)
    from p(2) show "mset (?rows @ ?rest) = mset (account_rows s a)"
      unfolding f .
  qed
  have cur: "before = BeforeAbsent \<or> (\<exists>b. before = BeforeAt b)"
    using valid by (cases before) simp_all
  have integ: "tx_integrity s \<longrightarrow>
         map fst (account_rows s a) = filter (\<lambda>e. le_account_id e = Some a) (ledger_entries s)"
    by (auto simp: tx_integrity_def account_rows_def intro: join_one)
  have clamp: "\<forall>n. limit = LimitInt n \<longrightarrow>
         page_limit limit = (if n < 1 then 1 else if 100 < n then 100 else n)"
    by (simp add: page_limit_clamp)
  have dflt: "limit = LimitAbsent \<or> limit = LimitUnreadable \<longrightarrow> page_limit limit = 20"
    by (auto simp: page_limit_clamp)
  show ?thesis
  proof (rule exI [of _ acc], rule exI [of _ "?rows"], rule exI [of _ "?rest"], intro conjI)
    show "s' = s" by fact
    show "get_account s a = Some acc" by fact
    show "hp_items page = map (format_row s acc) ?rows" by fact
    show "map hi_dr_cr (hp_items page) = map (\<lambda>r. dr_cr (fst r)) ?rows"
      unfolding items by (simp add: format_row_entry)
    show "map hi_amount (hp_items page) = map (\<lambda>r. float_of_decimal (amount (fst r))) ?rows"
      unfolding items by (simp add: format_row_entry)
    show "sorted_wrt (\<lambda>x y. precedes (fst x) (fst y)) ?rows" by (rule p(1))
    show "\<forall>b. before = BeforeAt b \<longrightarrow>
         mset (?rows @ ?rest) =
           mset (filter (\<lambda>r. \<exists>t. posted_at (fst r) = Some t \<and> t < b) (account_rows s a))"
      by (rule bef)
    show "before = BeforeAbsent \<longrightarrow> mset (?rows @ ?rest) = mset (account_rows s a)"
      by (rule all)
    show "before = BeforeAbsent \<or> (\<exists>b. before = BeforeAt b)" by (rule cur)
    show "\<forall>x\<in>set ?rows. \<forall>y\<in>set ?rest. precedes (fst x) (fst y)" by (rule p(3))
    show "int (length ?rows) = min (page_limit limit) (int (length (?rows @ ?rest)))"
      by (rule len)
    show "\<forall>n. limit = LimitInt n \<longrightarrow>
         page_limit limit = (if n < 1 then 1 else if 100 < n then 100 else n)" by (rule clamp)
    show "limit = LimitAbsent \<or> limit = LimitUnreadable \<longrightarrow> page_limit limit = 20"
      by (rule dflt)
    show "tx_integrity s \<longrightarrow>
         map fst (account_rows s a) =
           filter (\<lambda>e. le_account_id e = Some a) (ledger_entries s)" by (rule integ)
  qed
qed

theorem history_page_order_witness:
  "account_transactions sample_db 10 1 (BeforeAt 300) (LimitInt 0) = (sample_db, Inr sample_page) \<and>
   length (hp_items sample_page) = 1 \<and> map hi_dr_cr (hp_items sample_page) = [''CR''] \<and>
   length (filter (\<lambda>r. \<exists>t. posted_at (fst r) = Some t \<and> t < 300) (account_rows sample_db 1)) = 2 \<and>
   tx_integrity sample_db \<and>
   map fst (account_rows sample_db 1) =
     filter (\<lambda>e. le_account_id e = Some 1) (ledger_entries sample_db)"
proof -
  have r: "account_transactions sample_db 10 1 (BeforeAt 300) (LimitInt 0) =
      (sample_db, Inr sample_page)"
    by (simp add: history_defs sample_page_def sample_defs lookup_defs Let_def)
  have i: "tx_integrity sample_db"
    by (simp add: tx_integrity_def sample_defs)
  have c: "length (filter (\<lambda>r. \<exists>t. posted_at (fst r) = Some t \<and> t < 300)
             (account_rows sample_db 1)) = 2"
    by (simp add: account_rows_def sample_defs)
  from history_page_order [OF r] i
  have "map fst (account_rows sample_db 1) =
     filter (\<lambda>e. le_account_id e = Some 1) (ledger_entries sample_db)"
    by blast
  with r i c show ?thesis
    by (simp add: sample_page_def)
qed

section \<open>The next cursor\<close>

lemma hi_posted_at_format_row:
  "hi_posted_at (format_row s acc r) = or_else (posted_at (fst r)) (tx_created_at (snd r))"
  by (simp add: format_row_def Let_def split: prod.splits)

text \<open>
  C8, as stated, fails. Account 1 of the sample database has three entries. Its history
  with no cursor and the default limit of 20 is a short page of three items, and the
  cursor returned with it is not empty: it is 100, the posting time of the last item.
\<close>

theorem next_cursor_short_page_counterexample:
  "map_sum id (\<lambda>p. (length (hp_items p), hp_next_before p))
     (snd (account_transactions sample_db 10 1 BeforeAbsent LimitAbsent)) = Inr (3, Some 100) \<and>
   page_limit LimitAbsent = 20"
  by (simp add: history_defs sample_defs lookup_defs Let_def)

text \<open>
  C8, amended. For every history page, the returned cursor is the timestamp of the last
  returned item, which is the posting time of its entry (the creation time of its
  transaction when the entry has no posting time); the cursor is empty when the page has
  no items. A short page that is not empty carries the cursor like a full one.
\<close>

theorem next_cursor_of_last_item:
  assumes "account_transactions s uid a before limit = (s', Inr page)"
  shows "hp_next_before page =
           (if hp_items page = [] then None else hi_posted_at (last (hp_items page))) \<and>
         length (hp_items page) = length (history_rows s a before (page_limit limit)) \<and>
         (hp_items page \<noteq> [] \<longrightarrow>
            hi_posted_at (last (hp_items page)) =
              or_else (posted_at (fst (last (history_rows s a before (page_limit limit)))))
                (tx_created_at (snd (last (history_rows s a before (page_limit limit))))))"
proof -
  from assms obtain acc where
    items: "hp_items page = map (format_row s acc) (history_rows s a before (page_limit limit))"
    and nb: "hp_next_before page =
      (if history_rows s a before (page_limit limit) = [] then None
       else or_else (posted_at (fst (last (history_rows s a before (page_limit limit)))))
              (tx_created_at (snd (last (history_rows s a before (page_limit limit))))))"
    by (auto simp: account_transactions_def Let_def simp del: map_eq_conv
        split: option.splits if_splits)
  show ?thesis
    by (simp add: items nb last_map hi_posted_at_format_row)
qed

theorem next_cursor_of_last_item_witness:
  "account_transactions sample_db 20 2 BeforeAbsent LimitAbsent = (sample_db, Inr sample_short_page) \<and>
   length (hp_items sample_short_page) = 1 \<and>
   hp_next_before sample_short_page = hi_posted_at (last (hp_items sample_short_page)) \<and>
   hp_next_before sample_short_page = Some 300"
proof -
  have r: "account_transactions sample_db 20 2 BeforeAbsent LimitAbsent =
      (sample_db, Inr sample_short_page)"
    by (simp add: history_defs sample_short_page_def sample_defs lookup_defs Let_def)
  have n: "hp_items sample_short_page \<noteq> []"
    by (simp add: sample_short_page_def)
  from next_cursor_of_last_item [OF r] n
  have "hp_next_before sample_short_page = hi_posted_at (last (hp_items sample_short_page))"
    by simp
  with r show ?thesis
    by (simp add: sample_short_page_def)
qed


section \<open>Counterparty\<close>






subsection \<open>What the handlers keep\<close>

















subsection \<open>The siblings and the counterparty of an entry\<close>










end
